theory Spec2Isabelle
  imports Complex_Main "HOL-Library.Word" "HOL-Library.Code_Target_Numeral"
begin

section \<open>Strings and number formatting\<close>

text \<open>
  Go strings are byte sequences; they are modelled as \<open>string\<close> (a list of 8-bit characters).
  The helpers below model the few library functions of \<^verbatim>\<open>strings\<close>, \<^verbatim>\<open>strconv\<close> and
  \<^verbatim>\<open>fmt\<close> that the logger calls.
\<close>

definition digit :: "nat \<Rightarrow> char" where
  "digit d = ''0123456789'' ! d"

text \<open>Decimal digits of a natural number (\<^verbatim>\<open>strconv.FormatUint(n, 10)\<close>).\<close>

function dec :: "nat \<Rightarrow> string" where
  "dec n = (if n < 10 then [digit n] else dec (n div 10) @ [digit (n mod 10)])"
  by pat_completeness auto
termination
  by (relation "measure id") auto

declare dec.simps [simp del]

text \<open>\<^verbatim>\<open>%d\<close> of \<^verbatim>\<open>fmt\<close> on an integer.\<close>

definition fmt_d :: "int \<Rightarrow> string" where
  "fmt_d i = (if i < 0 then ''-'' @ dec (nat (- i)) else dec (nat i))"

text \<open>
  \<^verbatim>\<open>%0Nd\<close> of \<^verbatim>\<open>fmt\<close>: the digits are padded with zeros to the width \<open>N\<close>; a minus sign
  takes one of the \<open>N\<close> places.
\<close>

definition fmt_0d :: "nat \<Rightarrow> int \<Rightarrow> string" where
  "fmt_0d N i =
     (let ds = dec (nat \<bar>i\<bar>)
      in if i < 0 then ''-'' @ replicate (N - 1 - length ds) (CHR ''0'') @ ds
         else replicate (N - length ds) (CHR ''0'') @ ds)"

text \<open>\<^verbatim>\<open>strings.ReplaceAll(s, ",", ";")\<close>: both patterns are one byte long.\<close>

definition ReplaceAll_comma :: "string \<Rightarrow> string" where
  "ReplaceAll_comma s = map (\<lambda>c. if c = CHR '','' then CHR '';'' else c) s"

text \<open>\<^verbatim>\<open>strings.Join(xs, sep)\<close>.\<close>

fun Join :: "string list \<Rightarrow> string \<Rightarrow> string" where
  "Join [] sep = []"
| "Join [x] sep = x"
| "Join (x # y # ys) sep = x @ sep @ Join (y # ys) sep"

text \<open>
  \<^verbatim>\<open>strings.ToUpper\<close> on ASCII input: the letters a to z are mapped to A to Z and every other
  byte is kept. Go's function also maps letters outside ASCII; the operations below that call
  \<^verbatim>\<open>strings.ToUpper\<close> take the function as a parameter, and \<open>ToUpperASCII\<close> is the instance
  used on concrete ASCII inputs.
\<close>

definition upper_char :: "char \<Rightarrow> char" where
  "upper_char c =
     (if c \<in> set ''abcdefghijklmnopqrstuvwxyz''
      then ''ABCDEFGHIJKLMNOPQRSTUVWXYZ'' ! (of_char c - 97) else c)"

definition ToUpperASCII :: "string \<Rightarrow> string" where
  "ToUpperASCII s = map upper_char s"

section \<open>Floating-point numbers and machine integers\<close>

text \<open>
  The timer computes in \<^verbatim>\<open>float64\<close>. A finite \<^verbatim>\<open>float64\<close> value is modelled by the rational
  number it denotes, and an arithmetic operation of the source is the exact operation
  followed by \<open>fl\<close>, the rounding of IEEE 754 binary64 to the nearest representable value,
  ties to the even significand. \<open>expo x\<close> is the exponent of the binade of \<open>x\<close>, the spacing
  of the representable values around \<open>x\<close> is \<open>2 powi (max (expo x) (- 1022) - 52)\<close> (the
  maximum covers the subnormal numbers), and \<open>rne\<close> rounds the quotient to an integer.

  Negative zero is identified with zero: the source compares the values with \<open>0\<close>,
  subtracts them and converts them to integers, and none of these tells the two zeros
  apart. The infinities and NaN are not values of the model, and \<open>fl\<close> does not overflow.
  The readings of the clock are bounded by the 64-bit seconds counter, so the timer of the
  source does not produce them either; in \<^verbatim>\<open>formatMicroTimeDuration\<close> only the last product
  can overflow, and there the conversion to an integer gives the same result for an
  infinity as for the finite value of the model (see \<open>int_of_float64\<close>).
\<close>

type_synonym float64 = rat

text \<open>The position of the leading bit of a natural number.\<close>

function ilog2 :: "nat \<Rightarrow> nat" where
  "ilog2 n = (if n < 2 then 0 else Suc (ilog2 (n div 2)))"
  by pat_completeness auto
termination
  by (relation "measure id") auto

declare ilog2.simps [simp del]

text \<open>The exponent \<open>e\<close> with \<open>2 powi e \<le> \<bar>x\<bar> < 2 powi (e + 1)\<close>, for \<open>x \<noteq> 0\<close>.\<close>

definition expo :: "rat \<Rightarrow> int" where
  "expo x = (let a = \<bar>x\<bar> in if 1 \<le> a then int (ilog2 (nat \<lfloor>a\<rfloor>))
             else - int (ilog2 (nat \<lceil>1 / a\<rceil> - 1) + 1))"

text \<open>Rounding to the nearest integer, ties to the even one.\<close>

definition rne :: "rat \<Rightarrow> int" where
  "rne x = (let f = \<lfloor>x\<rfloor>; d = x - of_int f
            in if d < 1 / 2 then f else if 1 / 2 < d then f + 1
               else if even f then f else f + 1)"

definition fl :: "rat \<Rightarrow> float64" where
  "fl x = (if x = 0 then 0
           else (let e = max (expo x) (- 1022); u = 2 powi (e - 52)
                 in of_int (rne (x / u)) * u))"

text \<open>The operations \<^verbatim>\<open>+\<close>, \<^verbatim>\<open>-\<close>, \<^verbatim>\<open>*\<close> and \<^verbatim>\<open>/\<close> on \<^verbatim>\<open>float64\<close>.\<close>

definition fadd :: "float64 \<Rightarrow> float64 \<Rightarrow> float64" where
  "fadd x y = fl (x + y)"

definition fsub :: "float64 \<Rightarrow> float64 \<Rightarrow> float64" where
  "fsub x y = fl (x - y)"

definition fmul :: "float64 \<Rightarrow> float64 \<Rightarrow> float64" where
  "fmul x y = fl (x * y)"

definition fdiv :: "float64 \<Rightarrow> float64 \<Rightarrow> float64" where
  "fdiv x y = fl (x / y)"

text \<open>
  Go's \<^verbatim>\<open>int\<close> and \<^verbatim>\<open>int64\<close> are modelled by the integers in the range of 64 bits (the size
  of \<^verbatim>\<open>int\<close> on a 64-bit platform); \<open>wrap_int\<close> is the wrap-around of an arithmetic result
  that leaves the range. \<open>float64_of_int\<close> is the conversion \<^verbatim>\<open>float64(i)\<close>.
\<close>

definition wrap_int :: "int \<Rightarrow> int" where
  "wrap_int i = (i + 2 ^ 63) mod 2 ^ 64 - 2 ^ 63"

definition float64_of_int :: "int \<Rightarrow> float64" where
  "float64_of_int i = fl (of_int i)"

text \<open>
  The conversion \<^verbatim>\<open>int(x)\<close> of a \<^verbatim>\<open>float64\<close>: truncation towards zero. For a value outside
  the range of \<^verbatim>\<open>int\<close> the language leaves the result to the implementation; the model
  takes the result of the conversion instruction of amd64, which is the smallest integer
  (also for an infinity).
\<close>

definition trunc :: "rat \<Rightarrow> int" where
  "trunc x = (if x < 0 then - \<lfloor>- x\<rfloor> else \<lfloor>x\<rfloor>)"

definition int_of_float64 :: "float64 \<Rightarrow> int" where
  "int_of_float64 x =
     (if - (2 ^ 63) \<le> trunc x \<and> trunc x < 2 ^ 63 then trunc x else - (2 ^ 63))"

text \<open>\<^verbatim>\<open>formatMicroTimeDuration\<close>: the format is \<^verbatim>\<open>%02d:%02d:%02d:%02d.%06d\<close>.\<close>

definition formatMicroTimeDuration :: "float64 \<Rightarrow> string" where
  "formatMicroTimeDuration duration0 =
     (let days = int_of_float64 (fdiv duration0 86400);
          duration1 = fsub duration0 (float64_of_int (wrap_int (days * 86400)));
          hours = int_of_float64 (fdiv duration1 3600);
          duration2 = fsub duration1 (float64_of_int (wrap_int (hours * 3600)));
          minutes = int_of_float64 (fdiv duration2 60);
          duration3 = fsub duration2 (float64_of_int (wrap_int (minutes * 60)));
          seconds = int_of_float64 duration3;
          duration4 = fsub duration3 (float64_of_int seconds);
          microSeconds = int_of_float64 (fmul duration4 1000000)
      in fmt_0d 2 days @ '':'' @ fmt_0d 2 hours @ '':'' @ fmt_0d 2 minutes @ '':'' @
         fmt_0d 2 seconds @ ''.'' @ fmt_0d 6 microSeconds)"


section \<open>The environment: clock, file system, diagnostics\<close>

text \<open>
  A reading of \<^verbatim>\<open>time.Now()\<close>. The formatted views of the reading (which depend on the
  local time zone) are carried with it: \<open>Format_date\<close> is \<^verbatim>\<open>t.Format("2006-01-02")\<close>,
  \<open>Format_stamp\<close> is \<^verbatim>\<open>t.Format("2006-01-02 15:04:05.000000")\<close> and \<open>String_of\<close> is
  \<^verbatim>\<open>t.String()\<close>. \<open>Unix\<close> is an \<^verbatim>\<open>int64\<close> and \<open>Nanosecond\<close> an \<^verbatim>\<open>int\<close>; both are signed
  64-bit words, read with \<open>sint\<close>.
\<close>

record Time =
  Format_date :: string
  Format_stamp :: string
  String_of :: string
  Unix :: "64 word"
  Nanosecond :: "64 word"

datatype fs_op = Stat | Mkdir | OpenFile | Create | WriteString | Close

text \<open>
  The world outside the process. Every call of \<^verbatim>\<open>time.Now()\<close> consumes the next reading
  of \<open>clock\<close>; \<open>stderr\<close> collects the messages given to \<^verbatim>\<open>log.Println\<close> and
  \<^verbatim>\<open>log.Printf\<close> (without the prefix the standard logger adds); \<open>io_fails op path\<close> says
  that the operating system refuses operation \<open>op\<close> on \<open>path\<close>.
\<close>

record world =
  files :: "string \<rightharpoonup> string"
  dirs :: "string set"
  stderr :: "string list"
  clock :: "nat \<Rightarrow> Time"
  ticks :: nat
  io_fails :: "fs_op \<Rightarrow> string \<Rightarrow> bool"

text \<open>
  How a call ends: it returns, the process exits through \<^verbatim>\<open>log.Fatal\<close> (the message
  \<^verbatim>\<open>log.Fatal\<close> prints is not recorded), or it panics with a value.
\<close>

datatype outcome = Returned | Exited | Panicked string

definition Now :: "world \<Rightarrow> Time \<times> world" where
  "Now w = (clock w (ticks w), w\<lparr>ticks := Suc (ticks w)\<rparr>)"

definition Println :: "string \<Rightarrow> world \<Rightarrow> world" where
  "Println msg w = w\<lparr>stderr := stderr w @ [msg]\<rparr>"

definition content_of :: "world \<Rightarrow> string \<Rightarrow> string" where
  "content_of w path = (case files w path of None \<Rightarrow> [] | Some c \<Rightarrow> c)"

text \<open>\<^verbatim>\<open>os.IsNotExist(err)\<close> after \<^verbatim>\<open>os.Stat\<close> of a directory and of a file.\<close>

definition dir_not_exist :: "world \<Rightarrow> string \<Rightarrow> bool" where
  "dir_not_exist w d = (d \<notin> dirs w \<and> \<not> io_fails w Stat d)"

definition file_not_exist :: "world \<Rightarrow> string \<Rightarrow> bool" where
  "file_not_exist w path = (files w path = None \<and> \<not> io_fails w Stat path)"

text \<open>\<^verbatim>\<open>os.Mkdir\<close>; \<open>None\<close> is the error.\<close>

definition mkdir :: "world \<Rightarrow> string \<Rightarrow> world option" where
  "mkdir w d = (if io_fails w Mkdir d then None else Some (w\<lparr>dirs := insert d (dirs w)\<rparr>))"

text \<open>
  \<^verbatim>\<open>os.OpenFile(path, O_APPEND|O_CREATE|O_WRONLY, 0644)\<close> for a file \<open>path\<close> inside the
  directory \<open>d\<close>: the file is created empty when it is absent; the call fails when the
  directory is missing.
\<close>

definition open_append :: "world \<Rightarrow> string \<Rightarrow> string \<Rightarrow> world option" where
  "open_append w d path =
     (if io_fails w OpenFile path \<or> d \<notin> dirs w then None
      else Some (w\<lparr>files := (files w)(path \<mapsto> content_of w path)\<rparr>))"

text \<open>\<^verbatim>\<open>os.Create(path)\<close>: the file is created or truncated.\<close>

definition create_file :: "world \<Rightarrow> string \<Rightarrow> string \<Rightarrow> world option" where
  "create_file w d path =
     (if io_fails w Create path \<or> d \<notin> dirs w then None
      else Some (w\<lparr>files := (files w)(path \<mapsto> [])\<rparr>))"

text \<open>\<^verbatim>\<open>f.WriteString(s)\<close> on a file opened for appending, and \<^verbatim>\<open>f.Close()\<close>.\<close>

definition write_string :: "world \<Rightarrow> string \<Rightarrow> string \<Rightarrow> world option" where
  "write_string w path s =
     (if io_fails w WriteString path then None
      else Some (w\<lparr>files := (files w)(path \<mapsto> content_of w path @ s)\<rparr>))"

definition close_file :: "world \<Rightarrow> string \<Rightarrow> world option" where
  "close_file w path = (if io_fails w Close path then None else Some w)"

text \<open>
  \<^verbatim>\<open>microTime\<close>: seconds since the epoch with the fraction of the second, computed in
  \<^verbatim>\<open>float64\<close>.
\<close>

definition microTime :: "world \<Rightarrow> float64 \<times> world" where
  "microTime w =
     (let (now, w') = Now w;
          micSeconds = fdiv (float64_of_int (sint (Nanosecond now))) 1000000000
      in (fadd (float64_of_int (sint (Unix now))) micSeconds, w'))"


section \<open>The logging engine (the variant with level weights)\<close>

definition LevelDebug :: string where "LevelDebug = ''DEBUG''"
definition LevelInfo :: string where "LevelInfo = ''INFO''"
definition LevelNotice :: string where "LevelNotice = ''NOTICE''"
definition LevelWarning :: string where "LevelWarning = ''WARNING''"
definition LevelError :: string where "LevelError = ''ERROR''"
definition LevelEmergency :: string where "LevelEmergency = ''EMERGENCY''"
definition LevelFatal :: string where "LevelFatal = ''FATAL''"

definition LevelWeights :: "string \<rightharpoonup> int" where
  "LevelWeights = map_of
     [(LevelDebug, 0), (LevelInfo, 1), (LevelNotice, 2), (LevelWarning, 3),
      (LevelError, 4), (LevelEmergency, 5), (LevelFatal, 6)]"

text \<open>\<^verbatim>\<open>LevelWeights[level]\<close> as an expression: a missing key reads as the zero value.\<close>

definition weight_of :: "string \<Rightarrow> int" where
  "weight_of level = (case LevelWeights level of None \<Rightarrow> 0 | Some x \<Rightarrow> x)"

text \<open>The package-level variables.\<close>

record logger =
  LogDir :: string
  logDirExists :: bool
  start :: float64
  lastStep :: float64
  IncludeRuntime :: bool
  IncludeStep :: bool
  LogRequestsSeparately :: bool
  HideRequestsFromMainLog :: bool
  minimumLogLevel :: string
  levelWeight :: int
  Component :: string

text \<open>The values the variable declarations give, before \<^verbatim>\<open>init\<close> runs.\<close>

definition package_vars :: logger where
  "package_vars =
     \<lparr>LogDir = ''./logs'', logDirExists = False, start = 0, lastStep = 0,
      IncludeRuntime = False, IncludeStep = False, LogRequestsSeparately = False,
      HideRequestsFromMainLog = False, minimumLogLevel = LevelNotice, levelWeight = 0,
      Component = ''''\<rparr>"

text \<open>The last statement of \<^verbatim>\<open>init\<close>: \<^verbatim>\<open>levelWeight = LevelWeights[minimumLogLevel]\<close>.\<close>

definition init_levelWeight :: "logger \<Rightarrow> logger" where
  "init_levelWeight lg = lg\<lparr>levelWeight := weight_of (minimumLogLevel lg)\<rparr>"

text \<open>
  \<^verbatim>\<open>SetMinimumLogLevel\<close>. The loop over the keys of \<^verbatim>\<open>LevelWeights\<close> finds the upper-cased
  level exactly when it is a key. When it is not, the function calls itself with
  \<^verbatim>\<open>LevelNotice\<close>; \<open>None\<close> stands for a recursion that does not end.
\<close>

partial_function (option) SetMinimumLogLevel ::
  "(string \<Rightarrow> string) \<Rightarrow> string \<Rightarrow> logger \<Rightarrow> logger option" where
  "SetMinimumLogLevel ToUpper level lg =
     (if LevelWeights (ToUpper level) \<noteq> None
      then Some (lg\<lparr>minimumLogLevel := ToUpper level,
                    levelWeight := weight_of (ToUpper level)\<rparr>)
      else SetMinimumLogLevel ToUpper LevelNotice lg)"

text \<open>
  The directory check at the head of \<^verbatim>\<open>l\<close>: the cached flag is set only when this call
  created the directory. \<open>None\<close> is the \<^verbatim>\<open>log.Fatal\<close> after a failed \<^verbatim>\<open>os.Mkdir\<close>.
\<close>

definition check_log_dir :: "logger \<Rightarrow> world \<Rightarrow> (logger \<times> world) option" where
  "check_log_dir lg w =
     (if \<not> logDirExists lg then
        (if dir_not_exist w (LogDir lg) then
           (case mkdir w (LogDir lg) of
              None \<Rightarrow> None
            | Some w' \<Rightarrow> Some (lg\<lparr>logDirExists := True\<rparr>, w'))
         else Some (lg, w))
      else Some (lg, w))"

text \<open>
  The timer statements of \<^verbatim>\<open>l\<close>: every \<^verbatim>\<open>microTime()\<close> is a clock reading of its own.
  The result is the pair \<open>(runtime, step)\<close> with the updated variables.
\<close>

definition timing :: "logger \<Rightarrow> world \<Rightarrow> (float64 \<times> float64) \<times> logger \<times> world" where
  "timing lg w =
     (let (lg1, w1) = (if start lg = 0
                       then (let (m, w') = microTime w in (lg\<lparr>start := m, lastStep := m\<rparr>, w'))
                       else (lg, w));
          (m1, w2) = microTime w1;
          runtime = fsub m1 (start lg1);
          (m2, w3) = microTime w2;
          step = fsub m2 (lastStep lg1);
          (m3, w4) = microTime w3
      in ((runtime, step), lg1\<lparr>lastStep := m3\<rparr>, w4))"

text \<open>The text of an entry, from the formatted time stamp, runtime and step.\<close>

definition compose_entry ::
  "logger \<Rightarrow> string \<Rightarrow> string \<Rightarrow> string \<Rightarrow> string \<Rightarrow> string \<Rightarrow> string" where
  "compose_entry lg tFormatted runtimeFormatted stepFormatted level content =
     ''['' @ tFormatted @ '']'' @
     (if IncludeRuntime lg then ''['' @ runtimeFormatted @ '']'' else []) @
     (if IncludeStep lg then ''['' @ stepFormatted @ '']'' else []) @
     (if Component lg \<noteq> [] then ''['' @ Component lg @ '']'' else []) @
     '' '' @ level @ '' '' @ content @ [CHR 0x0A]"

definition log_path :: "logger \<Rightarrow> string \<Rightarrow> string" where
  "log_path lg date = LogDir lg @ ''/'' @ date @ ''.log''"

text \<open>\<^verbatim>\<open>l\<close>, the main logging function.\<close>

definition l :: "string \<Rightarrow> string \<Rightarrow> logger \<Rightarrow> world \<Rightarrow> outcome \<times> logger \<times> world" where
  "l level content lg w =
     (if LevelWeights level = None then
        (Returned, lg, Println (''LOGGER: Invalid log level: '' @ level) w)
      else if levelWeight lg > weight_of level then
        (Returned, lg,
         Println (''LOGGER: Level weight of minimum log level: '' @ fmt_d (levelWeight lg) @
                  '', level weight of selected level: '' @ fmt_d (weight_of level))
           (Println (''LOGGER: Log level not allowed: '' @ level) w))
      else
        (case check_log_dir lg w of
           None \<Rightarrow> (Exited, lg, w)
         | Some (lg1, w1) \<Rightarrow>
             (let (t, w2) = Now w1;
                  date = Format_date t;
                  tFormatted = Format_stamp t
              in case open_append w2 (LogDir lg1) (log_path lg1 date) of
                   None \<Rightarrow> (Exited, lg1, w2)
                 | Some w3 \<Rightarrow>
                     (let ((runtime, step), lg2, w4) = timing lg1 w3;
                          entry = compose_entry lg2 tFormatted (formatMicroTimeDuration runtime)
                                    (formatMicroTimeDuration step) level content
                      in case write_string w4 (log_path lg2 date) entry of
                           None \<Rightarrow> (Exited, lg2, w4)
                         | Some w5 \<Rightarrow>
                             (case close_file w5 (log_path lg2 date) of
                                None \<Rightarrow> (Exited, lg2, w5)
                              | Some w6 \<Rightarrow>
                                  if level = LevelFatal then (Panicked content, lg2, w6)
                                  else (Returned, lg2, w6))))))"

text \<open>\<^verbatim>\<open>Log\<close> calls \<^verbatim>\<open>l\<close>.\<close>

definition Log :: "string \<Rightarrow> string \<Rightarrow> logger \<Rightarrow> world \<Rightarrow> outcome \<times> logger \<times> world" where
  "Log level content lg w = l level content lg w"


section \<open>The legacy logging engine (no level weights)\<close>

text \<open>
  The earliest variant of the package knows five levels and has neither a threshold nor the
  variables \<^verbatim>\<open>minimumLogLevel\<close>, \<^verbatim>\<open>levelWeight\<close> and \<^verbatim>\<open>Component\<close>; its functions read
  and write the remaining fields of \<open>logger\<close> only.
\<close>

definition compose_entry_legacy ::
  "logger \<Rightarrow> string \<Rightarrow> string \<Rightarrow> string \<Rightarrow> string \<Rightarrow> string \<Rightarrow> string" where
  "compose_entry_legacy lg tFormatted runtimeFormatted stepFormatted level content =
     ''['' @ tFormatted @ '']'' @
     (if IncludeRuntime lg then ''['' @ runtimeFormatted @ '']'' else []) @
     (if IncludeStep lg then ''['' @ stepFormatted @ '']'' else []) @
     '' '' @ level @ '' '' @ content @ [CHR 0x0A]"

text \<open>The first statement of the legacy \<^verbatim>\<open>l\<close>: an empty or unknown level becomes INFO.\<close>

definition coerce_level :: "string \<Rightarrow> string" where
  "coerce_level level =
     (if level = [] then LevelInfo
      else if level \<noteq> LevelDebug \<and> level \<noteq> LevelInfo \<and> level \<noteq> LevelWarning \<and>
              level \<noteq> LevelError \<and> level \<noteq> LevelFatal then LevelInfo
      else level)"

definition l_legacy :: "string \<Rightarrow> string \<Rightarrow> logger \<Rightarrow> world \<Rightarrow> outcome \<times> logger \<times> world" where
  "l_legacy level0 content lg w =
     (let level = coerce_level level0
      in case check_log_dir lg w of
           None \<Rightarrow> (Exited, lg, w)
         | Some (lg1, w1) \<Rightarrow>
             (let (t, w2) = Now w1;
                  date = Format_date t;
                  tFormatted = Format_stamp t
              in case open_append w2 (LogDir lg1) (log_path lg1 date) of
                   None \<Rightarrow> (Exited, lg1, w2)
                 | Some w3 \<Rightarrow>
                     (let ((runtime, step), lg2, w4) = timing lg1 w3;
                          entry = compose_entry_legacy lg2 tFormatted
                                    (formatMicroTimeDuration runtime)
                                    (formatMicroTimeDuration step) level content
                      in case write_string w4 (log_path lg2 date) entry of
                           None \<Rightarrow> (Exited, lg2, w4)
                         | Some w5 \<Rightarrow>
                             (case close_file w5 (log_path lg2 date) of
                                None \<Rightarrow> (Exited, lg2, w5)
                              | Some w6 \<Rightarrow> (Returned, lg2, w6)))))"

text \<open>The legacy \<^verbatim>\<open>Fatal\<close> wrapper.\<close>

definition Fatal_legacy :: "string \<Rightarrow> logger \<Rightarrow> world \<Rightarrow> outcome \<times> logger \<times> world" where
  "Fatal_legacy content lg w = l_legacy LevelFatal content lg w"


section \<open>Request records\<close>

record Request =
  ConnectionTime :: string
  Method :: string
  Path :: string
  IP :: string
  Address :: string
  UserAgent :: string
  Referer :: string
  ConnectionID :: "64 word"
  ConnectionSeq :: "64 word"
  RequestedHost :: string

text \<open>
  The request of the variant with geo data has the same fields and ten more. The two
  \<^verbatim>\<open>float64\<close> fields have the type \<open>'f\<close>; \<^verbatim>\<open>fmt.Sprintf("%.12f", x)\<close> is a parameter of the
  functions that print them.
\<close>

record 'f GeoRequest = Request +
  Continent :: string
  Country :: string
  CountryCode :: string
  City :: string
  Latitude :: 'f
  Longitude :: 'f
  Timezone :: string
  PostalCode :: string
  Subdivision :: string
  SubdivisionCode :: string

definition New :: Request where
  "New = \<lparr>ConnectionTime = [], Method = [], Path = [], IP = [], Address = [], UserAgent = [],
          Referer = [], ConnectionID = 0, ConnectionSeq = 0, RequestedHost = []\<rparr>"

definition New_geo :: "('f::zero) GeoRequest" where
  "New_geo = \<lparr>ConnectionTime = [], Method = [], Path = [], IP = [], Address = [], UserAgent = [],
          Referer = [], ConnectionID = 0, ConnectionSeq = 0, RequestedHost = [],
          Continent = [], Country = [], CountryCode = [], City = [], Latitude = 0, Longitude = 0,
          Timezone = [], PostalCode = [], Subdivision = [], SubdivisionCode = []\<rparr>"

definition FormatUint :: "64 word \<Rightarrow> string" where
  "FormatUint x = dec (unat x)"

definition GetCSVHeader :: "string list" where
  "GetCSVHeader =
     [''connection_time'', ''method'', ''path'', ''ip'', ''address'', ''user_agent'', ''referer'',
      ''connection_id'', ''connection_seq'', ''requested_host'']"

definition ToCSV :: "Request \<Rightarrow> string" where
  "ToCSV r =
     ConnectionTime r @ '','' @ Method r @ '','' @ Path r @ '','' @ IP r @ '','' @
     Address r @ '','' @ UserAgent r @ '','' @ Referer r @ '','' @ RequestedHost r @ '','' @
     FormatUint (ConnectionID r) @ '','' @ FormatUint (ConnectionSeq r) @ [CHR 0x0A]"

definition GetCSVHeader_geo :: "string list" where
  "GetCSVHeader_geo =
     [''connection_time'', ''method'', ''path'', ''ip'', ''address'', ''user_agent'', ''referer'',
      ''requested_host'', ''continent'', ''country'', ''country_code'', ''city'', ''latitude'',
      ''longitude'', ''timezone'', ''postal_code'', ''subdivision'', ''subdivision_code'',
      ''connection_id'', ''connection_seq'']"

definition ToCSV_geo :: "('f \<Rightarrow> string) \<Rightarrow> 'f GeoRequest \<Rightarrow> string" where
  "ToCSV_geo Sprintf_f12 r =
     ConnectionTime r @ '','' @ Method r @ '','' @ Path r @ '','' @ IP r @ '','' @
     Address r @ '','' @ UserAgent r @ '','' @ Referer r @ '','' @ RequestedHost r @ '','' @
     Continent r @ '','' @ Country r @ '','' @ CountryCode r @ '','' @ City r @ '','' @
     Sprintf_f12 (Latitude r) @ '','' @ Sprintf_f12 (Longitude r) @ '','' @
     Timezone r @ '','' @ PostalCode r @ '','' @ Subdivision r @ '','' @
     SubdivisionCode r @ '','' @
     FormatUint (ConnectionID r) @ '','' @ FormatUint (ConnectionSeq r) @ [CHR 0x0A]"

text \<open>
  The column a field belongs to is the name in its \<^verbatim>\<open>json\<close> tag. \<open>csv_field r name\<close> is
  the text of the field tagged \<open>name\<close> as \<^verbatim>\<open>ToCSV\<close> prints it.
\<close>

definition csv_field :: "'a Request_scheme \<Rightarrow> string \<Rightarrow> string" where
  "csv_field r name =
     (if name = ''connection_time'' then ConnectionTime r
      else if name = ''method'' then Method r
      else if name = ''path'' then Path r
      else if name = ''ip'' then IP r
      else if name = ''address'' then Address r
      else if name = ''user_agent'' then UserAgent r
      else if name = ''referer'' then Referer r
      else if name = ''connection_id'' then FormatUint (ConnectionID r)
      else if name = ''connection_seq'' then FormatUint (ConnectionSeq r)
      else if name = ''requested_host'' then RequestedHost r
      else [])"

definition csv_field_geo :: "('f \<Rightarrow> string) \<Rightarrow> 'f GeoRequest \<Rightarrow> string \<Rightarrow> string" where
  "csv_field_geo Sprintf_f12 r name =
     (if name = ''continent'' then Continent r
      else if name = ''country'' then Country r
      else if name = ''country_code'' then CountryCode r
      else if name = ''city'' then City r
      else if name = ''latitude'' then Sprintf_f12 (Latitude r)
      else if name = ''longitude'' then Sprintf_f12 (Longitude r)
      else if name = ''timezone'' then Timezone r
      else if name = ''postal_code'' then PostalCode r
      else if name = ''subdivision'' then Subdivision r
      else if name = ''subdivision_code'' then SubdivisionCode r
      else csv_field r name)"

text \<open>A row whose columns follow a header: the fields in the header's order.\<close>

definition row_of :: "(string \<Rightarrow> string) \<Rightarrow> string list \<Rightarrow> string" where
  "row_of field header = Join (map field header) '','' @ [CHR 0x0A]"


section \<open>Logging requests\<close>

text \<open>\<^verbatim>\<open>fmt.Sprintf("(%s) %s <- %s @ %s", method, path, userAgent, ip)\<close>.\<close>

definition request_line :: "string \<Rightarrow> string \<Rightarrow> string \<Rightarrow> string \<Rightarrow> string" where
  "request_line method path userAgent ip =
     ''('' @ method @ '') '' @ path @ '' <- '' @ userAgent @ '' @ '' @ ip"

text \<open>The first statement of every request logger: the line for the main log.\<close>

definition log_to_main ::
  "string \<Rightarrow> logger \<Rightarrow> world \<Rightarrow> outcome \<times> logger \<times> world" where
  "log_to_main line lg w =
     (if (\<not> LogRequestsSeparately lg) \<or>
         (LogRequestsSeparately lg \<and> \<not> HideRequestsFromMainLog lg)
      then Log LevelInfo line lg w
      else (Returned, lg, w))"

definition requests_path :: "logger \<Rightarrow> string \<Rightarrow> string" where
  "requests_path lg date = LogDir lg @ ''/requests-'' @ date @ ''.csv''"

definition requests_simple_path :: "logger \<Rightarrow> string \<Rightarrow> string" where
  "requests_simple_path lg date = LogDir lg @ ''/requests-simple-'' @ date @ ''.csv''"

text \<open>\<^verbatim>\<open>LogSimpleRequest\<close> of the engine with level weights.\<close>

definition LogSimpleRequest ::
  "string \<Rightarrow> string \<Rightarrow> string \<Rightarrow> string \<Rightarrow> logger \<Rightarrow> world \<Rightarrow> outcome \<times> logger \<times> world" where
  "LogSimpleRequest method path userAgent ip lg w =
     (let (out, lg1, w1) = log_to_main (request_line method path userAgent ip) lg w
      in if out \<noteq> Returned then (out, lg1, w1)
         else if LogRequestsSeparately lg1 then
           (let (t, w2) = Now w1;
                date = Format_date t;
                tFormatted = Format_stamp t
            in case open_append w2 (LogDir lg1) (requests_simple_path lg1 date) of
                 None \<Rightarrow> (Exited, lg1, w2)
               | Some w3 \<Rightarrow>
                   (let userAgent' = ReplaceAll_comma userAgent;
                        entry = tFormatted @ '','' @ method @ '','' @ path @ '','' @
                                userAgent' @ '','' @ ip @ [CHR 0x0A]
                    in case write_string w3 (requests_simple_path lg1 date) entry of
                         None \<Rightarrow> (Exited, lg1, w3)
                       | Some w4 \<Rightarrow> (Returned, lg1, w4)))
         else (Returned, lg1, w1))"

text \<open>
  \<^verbatim>\<open>LogRequest\<close> of \<^verbatim>\<open>request.go\<close>. The request is passed by pointer: the function returns
  the request as the caller sees it afterwards.
\<close>

definition LogRequest ::
  "Request \<Rightarrow> logger \<Rightarrow> world \<Rightarrow> outcome \<times> Request \<times> logger \<times> world" where
  "LogRequest req lg w =
     (let (out, lg1, w1) =
            log_to_main (request_line (Method req) (Path req) (UserAgent req) (IP req)) lg w
      in if out \<noteq> Returned then (out, req, lg1, w1)
         else if LogRequestsSeparately lg1 then
           (let (t, w2) = Now w1;
                date = Format_date t
            in case open_append w2 (LogDir lg1) (requests_path lg1 date) of
                 None \<Rightarrow> (Exited, req, lg1, w2)
               | Some w3 \<Rightarrow>
                   (let req1 = req\<lparr>UserAgent := ReplaceAll_comma (UserAgent req)\<rparr>;
                        entry = ToCSV req1
                    in case write_string w3 (requests_path lg1 date) entry of
                         None \<Rightarrow> (Exited, req1, lg1, w3)
                       | Some w4 \<Rightarrow> (Returned, req1, lg1, w4)))
         else (Returned, req, lg1, w1))"

text \<open>
  The variant with geo data writes the header when the file of the day does not exist:
  \<open>write_header\<close> is that block; \<open>None\<close> is one of its calls of \<^verbatim>\<open>log.Fatal\<close>.
\<close>

definition write_header :: "logger \<Rightarrow> world \<Rightarrow> string \<Rightarrow> world option" where
  "write_header lg w filename =
     (if file_not_exist w filename then
        (case create_file w (LogDir lg) filename of
           None \<Rightarrow> None
         | Some w1 \<Rightarrow>
             (case write_string w1 filename (Join GetCSVHeader_geo '','' @ [CHR 0x0A]) of
                None \<Rightarrow> None
              | Some w2 \<Rightarrow> close_file w2 filename))
      else Some w)"

definition LogRequest_geo ::
  "('f \<Rightarrow> string) \<Rightarrow> 'f GeoRequest \<Rightarrow> logger \<Rightarrow> world
     \<Rightarrow> outcome \<times> 'f GeoRequest \<times> logger \<times> world" where
  "LogRequest_geo Sprintf_f12 req lg w =
     (let (out, lg1, w1) =
            log_to_main (request_line (Method req) (Path req) (UserAgent req) (IP req)) lg w
      in if out \<noteq> Returned then (out, req, lg1, w1)
         else if LogRequestsSeparately lg1 then
           (let (t, w2) = Now w1;
                date = Format_date t;
                filename = requests_path lg1 date
            in case write_header lg1 w2 filename of
                 None \<Rightarrow> (Exited, req, lg1, w2)
               | Some w3 \<Rightarrow>
                   (case open_append w3 (LogDir lg1) filename of
                      None \<Rightarrow> (Exited, req, lg1, w3)
                    | Some w4 \<Rightarrow>
                        (let req1 = req\<lparr>UserAgent := ReplaceAll_comma (UserAgent req)\<rparr>;
                             entry = ToCSV_geo Sprintf_f12 req1
                         in case write_string w4 filename entry of
                              None \<Rightarrow> (Exited, req1, lg1, w4)
                            | Some w5 \<Rightarrow> (Returned, req1, lg1, w5))))
         else (Returned, req, lg1, w1))"


section \<open>Building the request from the web framework's context\<close>

text \<open>
  What \<^verbatim>\<open>LogRequestFromFiber\<close> reads from the framework: the values of the context's
  methods. \<open>ctx_Context\<close> is \<open>None\<close> when \<^verbatim>\<open>c.Context()\<close> is nil.
\<close>

record RequestCtx =
  ConnTime_String :: string
  RemoteAddr_String :: string
  ConnID :: "64 word"
  ConnRequestNum :: "64 word"
  Host :: string

record Ctx =
  ctx_Context :: "RequestCtx option"
  ctx_Method :: string
  ctx_Path :: string
  ctx_IP :: string
  ctx_IPs :: "string list"
  ctx_Get :: "string \<Rightarrow> string"

text \<open>
  The record a city lookup of the geo database returns, as far as the logger reads it. The
  \<^verbatim>\<open>Names\<close> fields are maps from a language to a name.
\<close>

record 'f geoip2_City =
  Continent_Names :: "string \<rightharpoonup> string"
  Country_Names :: "string \<rightharpoonup> string"
  Country_IsoCode :: string
  City_Names :: "string \<rightharpoonup> string"
  Location_Latitude :: 'f
  Location_Longitude :: 'f
  Location_TimeZone :: string
  Postal_Code :: string
  Subdivisions :: "((string \<rightharpoonup> string) \<times> string) list"

text \<open>\<^verbatim>\<open>names["en"]\<close>: a missing key reads as the empty string.\<close>

definition names_en :: "(string \<rightharpoonup> string) \<Rightarrow> string" where
  "names_en names = (case names ''en'' of None \<Rightarrow> [] | Some n \<Rightarrow> n)"

text \<open>The assignments of the geo fields from a record that was found.\<close>

definition set_geo_fields :: "'f geoip2_City \<Rightarrow> 'f GeoRequest \<Rightarrow> 'f GeoRequest" where
  "set_geo_fields record req =
     (let continent = (if names_en (Continent_Names record) \<noteq> []
                       then names_en (Continent_Names record) else ''Unknown'');
          country = (if names_en (Country_Names record) \<noteq> []
                     then names_en (Country_Names record) else ''Unknown'');
          subdivision =
            (if length (Subdivisions record) > 0 \<and>
                names_en (fst (Subdivisions record ! 0)) \<noteq> []
             then names_en (fst (Subdivisions record ! 0)) else ''Unknown'');
          subdivisionCode =
            (if length (Subdivisions record) > 0 \<and> snd (Subdivisions record ! 0) \<noteq> []
             then snd (Subdivisions record ! 0) else ''Unknown'')
      in req\<lparr>Continent := continent, Country := country,
              CountryCode := Country_IsoCode record,
              City := names_en (City_Names record),
              Latitude := Location_Latitude record,
              Longitude := Location_Longitude record,
              Timezone := Location_TimeZone record,
              PostalCode := Postal_Code record,
              Subdivision := subdivision,
              SubdivisionCode := subdivisionCode\<rparr>)"

text \<open>
  \<^verbatim>\<open>LogRequestFromFiber\<close>. The database handle \<^verbatim>\<open>GeoIPDB\<close> is \<open>None\<close> when it is nil;
  otherwise it is the lookup \<^verbatim>\<open>GeoIPDB.City\<close>, which takes the parsed address (\<open>None\<close> when
  \<^verbatim>\<open>net.ParseIP\<close> returned nil) and returns an error (\<open>Inl\<close>) or a record. The function
  \<^verbatim>\<open>net.ParseIP\<close> is a parameter. The request that reached \<^verbatim>\<open>LogRequest\<close> is returned as
  well (\<open>None\<close> when the call ended before).
\<close>

definition LogRequestFromFiber ::
  "('f \<Rightarrow> string) \<Rightarrow> (string \<Rightarrow> 'ip option) \<Rightarrow> ('ip option \<Rightarrow> string + ('f::zero) geoip2_City) option
     \<Rightarrow> Ctx \<Rightarrow> logger \<Rightarrow> world \<Rightarrow> outcome \<times> 'f GeoRequest option \<times> logger \<times> world" where
  "LogRequestFromFiber Sprintf_f12 ParseIP GeoIPDB c lg w =
     (let req0 = New_geo;
          (t, w1) = Now w;
          connTime = (case ctx_Context c of None \<Rightarrow> String_of t
                      | Some rc \<Rightarrow> ConnTime_String rc);
          req1 = req0\<lparr>ConnectionTime := connTime, Method := ctx_Method c, Path := ctx_Path c\<rparr>;
          ip = (if length (ctx_IPs c) > 0 then ctx_IPs c ! 0 else ctx_IP c);
          req2 = req1\<lparr>IP := ip\<rparr>;
          rawIP = ParseIP ip
      in case (case GeoIPDB of
                 None \<Rightarrow> Inr req2
               | Some city \<Rightarrow>
                   (case city rawIP of
                      Inl err \<Rightarrow> Inl err
                    | Inr record \<Rightarrow> Inr (set_geo_fields record req2))) of
           Inl err \<Rightarrow> (Exited, None, lg, w1)
         | Inr req3 \<Rightarrow>
             (let remoteAddr = (case ctx_Context c of None \<Rightarrow> ctx_IP c
                                | Some rc \<Rightarrow> RemoteAddr_String rc);
                  req4 = req3\<lparr>Address := remoteAddr, UserAgent := ctx_Get c ''User-Agent'',
                               Referer := ctx_Get c ''Referer''\<rparr>
              in case ctx_Context c of
                   None \<Rightarrow> (Panicked ''nil pointer dereference'', None, lg, w1)
                 | Some rc \<Rightarrow>
                     (let req5 = req4\<lparr>ConnectionID := ConnID rc,
                                      ConnectionSeq := ConnRequestNum rc,
                                      RequestedHost := Host rc\<rparr>;
                          (out, req', lg', w') = LogRequest_geo Sprintf_f12 req5 lg w1
                      in (out, Some req5, lg', w'))))"


section \<open>Vocabulary of the statements\<close>

text \<open>The value \<^verbatim>\<open>microTime()\<close> computes from the \<open>k\<close>-th reading of a clock.\<close>

definition reading :: "(nat \<Rightarrow> Time) \<Rightarrow> nat \<Rightarrow> float64" where
  "reading c k =
     fadd (float64_of_int (sint (Unix (c k))))
          (fdiv (float64_of_int (sint (Nanosecond (c k)))) 1000000000)"

text \<open>
  No operation of the file system fails, and the cached flag of the log directory is not
  stale.
\<close>

definition io_ok :: "logger \<Rightarrow> world \<Rightarrow> bool" where
  "io_ok lg w = ((\<forall>op p. \<not> io_fails w op p) \<and> (logDirExists lg \<longrightarrow> LogDir lg \<in> dirs w))"

text \<open>The threshold variables agree: the weight is the weight of a level that exists.\<close>

definition threshold_ok :: "logger \<Rightarrow> bool" where
  "threshold_ok lg = (LevelWeights (minimumLogLevel lg) = Some (levelWeight lg))"

text \<open>The path of the main log at the moment a call starts.\<close>

definition main_log :: "logger \<Rightarrow> world \<Rightarrow> string" where
  "main_log lg w = log_path lg (Format_date (clock w (ticks w)))"

text \<open>
  What an emission that passes the gates and meets no failure computes, read off the clock:
  the runtime and the step it reports, the variables it leaves and the world it leaves after
  appending \<open>entry\<close>. On a fresh engine (\<open>start = 0\<close>) the call takes five readings of the
  clock, afterwards four; the first reading is the time stamp.
\<close>

definition runtime_of :: "logger \<Rightarrow> world \<Rightarrow> float64" where
  "runtime_of lg w =
     (if start lg = 0 then fsub (reading (clock w) (ticks w + 2)) (reading (clock w) (ticks w + 1))
      else fsub (reading (clock w) (ticks w + 1)) (start lg))"

definition step_of :: "logger \<Rightarrow> world \<Rightarrow> float64" where
  "step_of lg w =
     (if start lg = 0 then fsub (reading (clock w) (ticks w + 3)) (reading (clock w) (ticks w + 1))
      else fsub (reading (clock w) (ticks w + 2)) (lastStep lg))"

definition emit_logger :: "logger \<Rightarrow> world \<Rightarrow> logger" where
  "emit_logger lg w =
     lg\<lparr>logDirExists := (logDirExists lg \<or> LogDir lg \<notin> dirs w),
        start := (if start lg = 0 then reading (clock w) (ticks w + 1) else start lg),
        lastStep := (if start lg = 0 then reading (clock w) (ticks w + 4)
                     else reading (clock w) (ticks w + 3))\<rparr>"

definition emit_world :: "logger \<Rightarrow> world \<Rightarrow> string \<Rightarrow> world" where
  "emit_world lg w entry =
     w\<lparr>dirs := insert (LogDir lg) (dirs w),
       ticks := ticks w + (if start lg = 0 then 5 else 4),
       files := (files w)(main_log lg w \<mapsto> content_of w (main_log lg w) @ entry)\<rparr>"

definition entry_of :: "string \<Rightarrow> string \<Rightarrow> logger \<Rightarrow> world \<Rightarrow> string" where
  "entry_of level content lg w =
     compose_entry lg (Format_stamp (clock w (ticks w)))
       (formatMicroTimeDuration (runtime_of lg w)) (formatMicroTimeDuration (step_of lg w))
       level content"

definition entry_of_legacy :: "string \<Rightarrow> string \<Rightarrow> logger \<Rightarrow> world \<Rightarrow> string" where
  "entry_of_legacy level content lg w =
     compose_entry_legacy lg (Format_stamp (clock w (ticks w)))
       (formatMicroTimeDuration (runtime_of lg w)) (formatMicroTimeDuration (step_of lg w))
       level content"

text \<open>The client address \<^verbatim>\<open>LogRequestFromFiber\<close> takes: the first forwarded address, if any.\<close>

definition client_ip :: "Ctx \<Rightarrow> string" where
  "client_ip c = (if length (ctx_IPs c) > 0 then ctx_IPs c ! 0 else ctx_IP c)"

text \<open>
  The number of commas of a text: a row of the request file has one column more than it
  has commas. \<open>commas_outside_user_agent\<close> counts the commas of the text fields of a
  request other than the user agent, \<open>commas_geo_fields\<close> those of the geo fields as
  \<^verbatim>\<open>ToCSV\<close> prints them.
\<close>

definition commas :: "string \<Rightarrow> nat" where
  "commas s = length (filter (\<lambda>c. c = CHR '','') s)"

definition commas_outside_user_agent :: "'a Request_scheme \<Rightarrow> nat" where
  "commas_outside_user_agent r =
     commas (ConnectionTime r) + commas (Method r) + commas (Path r) + commas (IP r) +
     commas (Address r) + commas (Referer r) + commas (RequestedHost r)"

definition commas_geo_fields :: "('f \<Rightarrow> string) \<Rightarrow> 'f GeoRequest \<Rightarrow> nat" where
  "commas_geo_fields Sprintf_f12 r =
     commas (Continent r) + commas (Country r) + commas (CountryCode r) + commas (City r) +
     commas (Sprintf_f12 (Latitude r)) + commas (Sprintf_f12 (Longitude r)) +
     commas (Timezone r) + commas (PostalCode r) + commas (Subdivision r) +
     commas (SubdivisionCode r)"

text \<open>The text of the runtime and step fields of an entry that reports zero.\<close>

definition zero_duration :: string where
  "zero_duration = ''00:00:00:00.000000''"

text \<open>
  Concrete inputs: a clock that advances by one second with every reading, a clock that
  jumps by one second after the second reading and then stands still, a clock that stands
  still for five readings and is two seconds later afterwards, and a file system without
  files and directories. \<open>logger0\<close> is the package variables as they are declared, with the
  last statement of \<^verbatim>\<open>init\<close> applied to them (\<open>levelWeight\<close> becomes the weight of the
  declared threshold). The rest of \<^verbatim>\<open>init\<close>, which reads the environment and creates a
  missing log directory, is not part of \<open>logger0\<close>: these are the variables of a process
  whose environment sets none of the logger's variables and whose log directory existed
  when \<^verbatim>\<open>init\<close> ran, so that \<open>logDirExists\<close> stayed false; in \<open>world0\<close> the directory is no
  longer there. The requests: one whose user agent holds a comma, with and without geo
  fields, and the same two with a comma in the path as well; \<open>Sprintf_zero\<close> stands for
  \<^verbatim>\<open>fmt.Sprintf("%.12f", x)\<close> on the value zero.
\<close>

definition time_at :: "64 word \<Rightarrow> Time" where
  "time_at s = \<lparr>Format_date = ''2024-01-02'', Format_stamp = ''2024-01-02 03:04:05.000000'',
                String_of = ''2024-01-02 03:04:05 +0000 UTC'', Unix = s, Nanosecond = 0\<rparr>"

definition clock_ticking :: "nat \<Rightarrow> Time" where
  "clock_ticking n = time_at (1704164645 + of_nat n)"

definition clock_jump :: "nat \<Rightarrow> Time" where
  "clock_jump n = time_at (if n < 2 then 1704164645 else 1704164646)"

definition clock_calm :: "nat \<Rightarrow> Time" where
  "clock_calm n = time_at (if n < 5 then 1704164645 else 1704164647)"

definition request0 :: Request where
  "request0 = New\<lparr>Method := ''GET'', Path := ''/index'', IP := ''127.0.0.1'',
                  UserAgent := ''Mozilla/5.0 (X11, Linux)'', RequestedHost := ''example.org'',
                  ConnectionID := 7, ConnectionSeq := 3\<rparr>"

definition request1 :: Request where
  "request1 = request0\<lparr>Path := ''/a,b''\<rparr>"

definition geo_request0 :: "rat GeoRequest" where
  "geo_request0 = New_geo\<lparr>Method := ''GET'', Path := ''/index'', IP := ''127.0.0.1'',
                  UserAgent := ''Mozilla/5.0 (X11, Linux)'', RequestedHost := ''example.org'',
                  ConnectionID := 7, ConnectionSeq := 3\<rparr>"

definition geo_request1 :: "rat GeoRequest" where
  "geo_request1 = geo_request0\<lparr>Path := ''/a,b''\<rparr>"

definition Sprintf_zero :: "rat \<Rightarrow> string" where
  "Sprintf_zero x = ''0.000000000000''"

definition request_ctx0 :: RequestCtx where
  "request_ctx0 = \<lparr>ConnTime_String = ''2024-01-02 03:04:04 +0000 UTC'',
                    RemoteAddr_String = ''127.0.0.1:51234'', ConnID = 7, ConnRequestNum = 3,
                    Host = ''example.org''\<rparr>"

definition ctx0 :: Ctx where
  "ctx0 = \<lparr>ctx_Context = Some request_ctx0, ctx_Method = ''GET'', ctx_Path = ''/index'',
            ctx_IP = ''not-an-address'', ctx_IPs = [], ctx_Get = (\<lambda>h. [])\<rparr>"

definition world0 :: world where
  "world0 = \<lparr>files = Map.empty, dirs = {}, stderr = [], clock = clock_ticking, ticks = 0,
             io_fails = (\<lambda>op p. False)\<rparr>"

definition logger0 :: logger where
  "logger0 = init_levelWeight package_vars"


section \<open>Rounding\<close>

text \<open>
  The facts about \<open>fl\<close> the statements need: the exponent brackets the value; a value
  \<open>m * 2 powi q\<close> with \<open>\<bar>m\<bar> \<le> 2 ^ 53\<close> and \<open>- 1074 \<le> q\<close> is representable, and every result
  of \<open>fl\<close> has this form, so that rounding is idempotent; rounding does not cross a power
  of two; and the difference of two representable values rounds to a number of the sign of
  the exact difference (there is no underflow to zero in a subtraction).
\<close>

lemma ilog2_bounds: "0 < n \<Longrightarrow> 2 ^ ilog2 n \<le> n \<and> n < 2 ^ (ilog2 n + 1)"
proof (induction n rule: ilog2.induct)
  case (1 n)
  show ?case
  proof (cases "n < 2")
    case True
    with "1.prems" have "n = 1" by simp
    then show ?thesis by (simp add: ilog2.simps)
  next
    case False
    then have "0 < n div 2" by simp
    with False "1.IH" have ih: "2 ^ ilog2 (n div 2) \<le> n div 2" "n div 2 < 2 ^ (ilog2 (n div 2) + 1)"
      by simp_all
    have e: "ilog2 n = Suc (ilog2 (n div 2))"
      using False by (subst ilog2.simps) simp
    from ih show ?thesis
      unfolding e by simp linarith
  qed
qed

lemma ilog2_bounds_rat:
  assumes "0 < n"
  shows "(2::rat) ^ ilog2 n \<le> of_nat n" and "(of_nat n :: rat) + 1 \<le> 2 ^ (ilog2 n + 1)"
proof -
  from ilog2_bounds [OF assms] have a: "2 ^ ilog2 n \<le> n" and b: "n + 1 \<le> 2 ^ (ilog2 n + 1)"
    by simp_all
  from a have "(of_nat (2 ^ ilog2 n) :: rat) \<le> of_nat n"
    by (rule iffD2 [OF of_nat_le_iff])
  then show "(2::rat) ^ ilog2 n \<le> of_nat n" by simp
  from b have "(of_nat (n + 1) :: rat) \<le> of_nat (2 ^ (ilog2 n + 1))"
    by (rule iffD2 [OF of_nat_le_iff])
  then show "(of_nat n :: rat) + 1 \<le> 2 ^ (ilog2 n + 1)" by simp
qed


lemma expo_big:
  assumes "1 \<le> \<bar>x\<bar>"
  shows "2 powi (expo x) \<le> \<bar>x\<bar> \<and> \<bar>x\<bar> < 2 powi (expo x + 1)"
proof -
  define a where "a = \<bar>x\<bar>"
  define n where "n = nat \<lfloor>a\<rfloor>"
  have True: "1 \<le> a" using assms by (simp add: a_def)
  have n1: "0 < n" using True by (simp add: n_def)
  have e: "expo x = int (ilog2 n)"
    using True by (simp add: expo_def a_def n_def Let_def)
  have "of_int \<lfloor>a\<rfloor> \<le> a" "a < of_int \<lfloor>a\<rfloor> + 1" by linarith+
  moreover have "(of_nat n :: rat) = of_int \<lfloor>a\<rfloor>"
    using True by (simp add: n_def)
  ultimately have na: "of_nat n \<le> a" "a < of_nat n + 1"
    by simp_all
  have p: "(2::rat) powi (int (ilog2 n) + 1) = 2 ^ (ilog2 n + 1)"
    by (simp add: power_int_add)
  have q: "(2::rat) powi (int (ilog2 n)) = 2 ^ ilog2 n"
    by simp
  from ilog2_bounds_rat [OF n1] na have "2 ^ ilog2 n \<le> a" "a < 2 ^ (ilog2 n + 1)"
    by linarith+
  then show ?thesis
    unfolding e p q a_def by blast
qed

lemma expo_small:
  assumes "x \<noteq> 0" and "\<bar>x\<bar> < 1"
  shows "2 powi (expo x) \<le> \<bar>x\<bar> \<and> \<bar>x\<bar> < 2 powi (expo x + 1)"
proof -
  define a where "a = \<bar>x\<bar>"
  have a0: "0 < a" and a1: "a < 1" using assms by (simp_all add: a_def)
  define Y where "Y = nat \<lceil>1 / a\<rceil>"
  define k where "k = ilog2 (Y - 1) + 1"
  have inv: "1 < 1 / a" using a1 a0 by simp
  then have c2: "2 \<le> \<lceil>1 / a\<rceil>" by linarith
  then have Y2: "2 \<le> Y" unfolding Y_def by linarith
  have e: "expo x = - int k"
    using a1 by (simp add: expo_def a_def [symmetric] Y_def k_def Let_def)
  have "1 / a \<le> of_int \<lceil>1 / a\<rceil>" "of_int \<lceil>1 / a\<rceil> - 1 < 1 / a" by linarith+
  moreover have "(of_nat Y :: rat) = of_int \<lceil>1 / a\<rceil>"
    using c2 by (simp add: Y_def)
  ultimately have Ya: "1 / a \<le> of_nat Y" "of_nat Y - 1 < 1 / a"
    by simp_all
  from Y2 have Y1: "0 < Y - 1" by simp
  have of: "(of_nat (Y - 1) :: rat) = of_nat Y - 1" using Y2 by (simp add: of_nat_diff)
  have k1: "k - 1 = ilog2 (Y - 1)" by (simp add: k_def)
  from ilog2_bounds_rat [OF Y1] have b: "(2::rat) ^ (k - 1) \<le> of_nat Y - 1" "(of_nat Y :: rat) \<le> 2 ^ k"
    unfolding k1 of unfolding k_def by simp_all
  have u: "1 / a \<le> 2 ^ k" using Ya(1) b(2) by linarith
  have l: "(2::rat) ^ (k - 1) < 1 / a" using Ya(2) b(1) by linarith
  have kk: "1 \<le> k" by (simp add: k_def)
  have p1: "(2::rat) powi (- int k) = inverse (2 ^ k)"
    by (simp only: power_int_minus power_int_of_nat)
  have ek: "- int k + 1 = - int (k - 1)" using kk by linarith
  have "(2::rat) powi (- int k + 1) = 2 powi (- int (k - 1))" by (simp only: ek)
  also have "\<dots> = inverse (2 ^ (k - 1))"
    by (simp only: power_int_minus power_int_of_nat)
  finally have p2: "(2::rat) powi (- int k + 1) = inverse (2 ^ (k - 1))" .
  have ia: "0 < inverse a" using a0 by simp
  from u have "inverse a \<le> 2 ^ k" by (simp only: inverse_eq_divide)
  from le_imp_inverse_le [OF this ia] have g1: "inverse (2 ^ k) \<le> a"
    by (simp only: inverse_inverse_eq)
  from l have "(2::rat) ^ (k - 1) < inverse a" by (simp only: inverse_eq_divide)
  from less_imp_inverse_less [OF this] have g2: "a < inverse (2 ^ (k - 1))"
    by (simp only: inverse_inverse_eq zero_less_power zero_less_numeral)
  from g1 g2 show ?thesis
    unfolding e p1 p2 a_def by blast
qed

lemma expo_bounds:
  assumes "x \<noteq> 0"
  shows "2 powi (expo x) \<le> \<bar>x\<bar>" and "\<bar>x\<bar> < 2 powi (expo x + 1)"
  using expo_big [of x] expo_small [of x] assms by (cases "1 \<le> \<bar>x\<bar>"; simp)+

lemma rne_of_int: "rne (of_int k) = k"
  by (simp add: rne_def)

lemma rne_ge: "of_int k \<le> x \<Longrightarrow> k \<le> rne x"
proof -
  assume "of_int k \<le> x"
  then have "k \<le> \<lfloor>x\<rfloor>" by (simp add: le_floor_iff)
  then show ?thesis by (simp add: rne_def Let_def)
qed

lemma rne_le: "x \<le> of_int k \<Longrightarrow> rne x \<le> k"
proof -
  assume a: "x \<le> of_int k"
  then have f: "\<lfloor>x\<rfloor> \<le> k" by (simp add: floor_le_iff)
  show ?thesis
  proof (cases "\<lfloor>x\<rfloor> = k")
    case True
    with a have "x = of_int k" by linarith
    then show ?thesis by (simp add: rne_of_int)
  next
    case False
    with f have "\<lfloor>x\<rfloor> + 1 \<le> k" by simp
    then show ?thesis by (simp add: rne_def Let_def)
  qed
qed

lemma pow2_pos: "0 < (2::rat) powi e"
  by simp

lemma pow2_add: "(2::rat) powi (a + b) = 2 powi a * 2 powi b"
  by (simp add: power_int_add)

lemma pow2_le: "a \<le> b \<Longrightarrow> (2::rat) powi a \<le> 2 powi b"
  by (simp add: power_int_increasing)

lemma pow2_less_imp: "(2::rat) powi a < 2 powi b \<Longrightarrow> a < b"
proof (rule ccontr)
  assume l: "(2::rat) powi a < 2 powi b" and "\<not> a < b"
  then have "b \<le> a" by simp
  from pow2_le [OF this] l show False by simp
qed

lemma pow2_le_imp: "(2::rat) powi a \<le> 2 powi b \<Longrightarrow> a \<le> b"
proof (rule ccontr)
  assume l: "(2::rat) powi a \<le> 2 powi b" and "\<not> a \<le> b"
  then have "b < a" by simp
  then have "(2::rat) powi b < 2 powi a" by (rule power_int_strict_increasing) simp
  with l show False by simp
qed

lemma pow2_split: "a \<le> b \<Longrightarrow> (2::rat) powi b = of_int (2 ^ nat (b - a)) * 2 powi a"
proof -
  assume "a \<le> b"
  then have "b = int (nat (b - a)) + a" by simp
  then have "(2::rat) powi b = 2 powi (int (nat (b - a)) + a)" by (rule arg_cong)
  also have "\<dots> = 2 powi (int (nat (b - a))) * 2 powi a" by (rule pow2_add)
  also have "\<dots> = of_int (2 ^ nat (b - a)) * 2 powi a"
    by (simp only: power_int_of_nat of_int_power of_int_numeral)
  finally show ?thesis .
qed

lemma fl_zero: "fl 0 = 0"
  by (simp add: fl_def)

lemma fl_scaled_int:
  assumes "x \<noteq> 0" and "x = of_int k * 2 powi (max (expo x) (- 1022) - 52)"
  shows "fl x = x"
proof -
  define u where "u = (2::rat) powi (max (expo x) (- 1022) - 52)"
  have u0: "u \<noteq> 0" by (simp add: u_def)
  have xu: "x = of_int k * u" using assms(2) unfolding u_def .
  have "x / u = of_int k" by (subst xu) (simp add: u0)
  then have r: "rne (x / u) = k" by (simp add: rne_of_int)
  have "fl x = of_int (rne (x / u)) * u"
    using assms(1) by (simp add: fl_def Let_def u_def)
  then show ?thesis by (simp only: r xu [symmetric])
qed

lemma fl_rep:
  assumes "\<bar>m\<bar> \<le> 2 ^ 53" and "- 1074 \<le> q"
  shows "fl (of_int m * 2 powi q) = of_int m * 2 powi q"
proof (cases "m = 0")
  case True
  then show ?thesis by (simp add: fl_zero)
next
  case False
  define s where "s = of_int m * (2::rat) powi q"
  have s0: "s \<noteq> 0" using False by (simp add: s_def)
  define E where "E = max (expo s) (- 1022)"
  have abs_s: "\<bar>s\<bar> = of_int \<bar>m\<bar> * 2 powi q"
    by (simp add: s_def abs_mult)
  note b = expo_bounds [OF s0]
  show ?thesis
  proof (cases "\<bar>m\<bar> = 2 ^ 53")
    case True
    then have "\<bar>s\<bar> = 2 powi 53 * 2 powi q" by (simp add: abs_s)
    then have as: "\<bar>s\<bar> = 2 powi (53 + q)" by (simp only: pow2_add)
    have "(2::rat) powi (53 + q) < 2 powi (53 + q + 1)"
      by (rule power_int_strict_increasing) simp_all
    with b(1) have "(2::rat) powi expo s < 2 powi (53 + q + 1)"
      unfolding as by (rule order_le_less_trans)
    then have e1: "expo s < 53 + q + 1" by (rule pow2_less_imp)
    from b(2) have "(2::rat) powi (53 + q) < 2 powi (expo s + 1)"
      unfolding as .
    then have e2: "53 + q < expo s + 1" by (rule pow2_less_imp)
    from e1 e2 have e: "expo s = 53 + q" by simp
    with assms(2) have E: "E = 53 + q" by (simp add: E_def)
    obtain h where h: "m = 2 * h"
      using True by (cases "0 \<le> m") (auto simp: abs_if intro: that [of "2 ^ 52"] that [of "- (2 ^ 52)"])
    have "(2::rat) powi (q + 1) = 2 powi q * 2" by (simp add: pow2_add)
    then have "s = of_int h * 2 powi (E - 52)"
      by (simp add: s_def h E add.commute)
    from fl_scaled_int [OF s0 this [unfolded E_def]] show ?thesis
      by (simp add: s_def)
  next
    case False
    with assms(1) have "\<bar>m\<bar> < 2 ^ 53" by simp
    then have "(of_int \<bar>m\<bar> :: rat) < 2 powi 53"
      by (metis of_int_less_iff of_int_numeral of_int_power power_int_numeral)
    then have "\<bar>s\<bar> < 2 powi 53 * 2 powi q"
      unfolding abs_s by (simp add: pow2_pos)
    then have "\<bar>s\<bar> < 2 powi (53 + q)" by (simp only: pow2_add)
    with b(1) have "(2::rat) powi expo s < 2 powi (53 + q)" by (rule order_le_less_trans)
    then have "expo s < 53 + q" by (rule pow2_less_imp)
    with assms(2) have le: "E - 52 \<le> q" by (simp add: E_def)
    from pow2_split [OF le] have "s = of_int (m * 2 ^ nat (q - (E - 52))) * 2 powi (E - 52)"
      by (simp add: s_def)
    from fl_scaled_int [OF s0 this [unfolded E_def]] show ?thesis
      by (simp add: s_def)
  qed
qed

lemma fl_unfold:
  "x \<noteq> 0 \<Longrightarrow> fl x = of_int (rne (x / 2 powi (max (expo x) (- 1022) - 52)))
                          * 2 powi (max (expo x) (- 1022) - 52)"
  by (simp add: fl_def Let_def)

lemma fl_form:
  "\<exists>m q. fl x = of_int m * 2 powi q \<and> \<bar>m\<bar> \<le> 2 ^ 53 \<and> - 1074 \<le> q"
proof (cases "x = 0")
  case True
  have "fl x = of_int 0 * 2 powi 0 \<and> \<bar>0::int\<bar> \<le> 2 ^ 53 \<and> (- 1074 :: int) \<le> 0"
    using True by (simp add: fl_zero)
  then show ?thesis by blast
next
  case False
  define E where "E = max (expo x) (- 1022)"
  define u where "u = (2::rat) powi (E - 52)"
  have u0: "0 < u" by (simp add: u_def)
  note b = expo_bounds [OF False]
  have "(2::rat) powi (expo x + 1) \<le> 2 powi (E + 1)"
    by (rule pow2_le) (simp add: E_def)
  with b(2) have "\<bar>x\<bar> < 2 powi (E + 1)" by (rule order_less_le_trans)
  also have "(2::rat) powi (E + 1) = of_int (2 ^ nat (E + 1 - (E - 52))) * u"
    unfolding u_def by (rule pow2_split) simp
  also have "\<dots> = of_int (2 ^ 53) * u" by simp
  finally have ax: "\<bar>x\<bar> < of_int (2 ^ 53) * u" .
  from ax have "x \<le> of_int (2 ^ 53) * u" and "of_int (- (2 ^ 53)) * u \<le> x"
    by (auto simp: abs_less_iff)
  then have "of_int (- (2 ^ 53)) \<le> x / u" and "x / u \<le> of_int (2 ^ 53)"
    using u0 by (simp_all only: pos_divide_le_eq pos_le_divide_eq)
  then have "- (2 ^ 53) \<le> rne (x / u)" and "rne (x / u) \<le> 2 ^ 53"
    by (auto intro: rne_ge rne_le)
  then have m: "\<bar>rne (x / u)\<bar> \<le> 2 ^ 53" by (simp add: abs_le_iff)
  have q: "- 1074 \<le> E - 52" by (simp add: E_def)
  have "fl x = of_int (rne (x / u)) * 2 powi (E - 52)"
    using fl_unfold [OF False] by (simp only: E_def u_def)
  with m q show ?thesis by blast
qed

lemma fl_idem: "fl (fl x) = fl x"
proof -
  obtain m q where "fl x = of_int m * 2 powi q" "\<bar>m\<bar> \<le> 2 ^ 53" "- 1074 \<le> q"
    using fl_form [of x] by blast
  then show ?thesis by (simp only: fl_rep)
qed

lemma fl_grid: "\<exists>k. fl x = of_int k * 2 powi (- 1074)"
proof -
  obtain m q where f: "fl x = of_int m * 2 powi q" and q: "- 1074 \<le> q"
    using fl_form [of x] by blast
  from pow2_split [OF q]
  have "fl x = of_int (m * 2 ^ nat (q - - 1074)) * 2 powi (- 1074)"
    by (simp only: f of_int_mult mult.assoc)
  then show ?thesis by blast
qed

lemma fl_of_int: "\<bar>n\<bar> \<le> 2 ^ 53 \<Longrightarrow> fl (of_int n) = of_int n"
  using fl_rep [of n 0] by simp

lemma fl_ge_pow2:
  assumes "- 1022 \<le> j" and "2 powi j \<le> x"
  shows "2 powi j \<le> fl x"
proof -
  have xp: "0 < x" using assms(2) pow2_pos [of j] by (rule order_less_le_trans [rotated])
  then have x0: "x \<noteq> 0" and ax: "\<bar>x\<bar> = x" by simp_all
  note b = expo_bounds [OF x0, unfolded ax]
  from assms(2) b(2) have "(2::rat) powi j < 2 powi (expo x + 1)" by (rule order_le_less_trans)
  then have "j < expo x + 1" by (rule pow2_less_imp)
  then have je: "j \<le> expo x" by simp
  with assms(1) have E: "max (expo x) (- 1022) = expo x" by simp
  define u where "u = (2::rat) powi (expo x - 52)"
  have u0: "0 < u" by (simp add: u_def)
  have pe: "(2::rat) powi (expo x) = of_int (2 ^ nat (expo x - (expo x - 52))) * u"
    unfolding u_def by (rule pow2_split) simp
  then have pe': "(2::rat) powi (expo x) = of_int (2 ^ 52) * u" by simp
  with b(1) have "of_int (2 ^ 52) * u \<le> x" by simp
  then have "of_int (2 ^ 52) \<le> x / u" using u0 by (simp add: pos_le_divide_eq)
  then have "2 ^ 52 \<le> rne (x / u)" by (rule rne_ge)
  then have "(of_int (2 ^ 52) :: rat) \<le> of_int (rne (x / u))" by (simp only: of_int_le_iff)
  then have "of_int (2 ^ 52) * u \<le> of_int (rne (x / u)) * u"
    using u0 by (simp only: mult_le_cancel_right_pos)
  then have "2 powi (expo x) \<le> fl x"
    unfolding fl_unfold [OF x0] E pe' u_def .
  with pow2_le [OF je] show ?thesis by (rule order_trans)
qed

lemma fl_pos:
  assumes "2 powi (- 1074) \<le> x"
  shows "0 < fl x"
proof -
  have xp: "0 < x" using assms pow2_pos [of "- 1074"] by (rule order_less_le_trans [rotated])
  then have x0: "x \<noteq> 0" and ax: "\<bar>x\<bar> = x" by simp_all
  note b = expo_bounds [OF x0, unfolded ax]
  define u where "u = (2::rat) powi (max (expo x) (- 1022) - 52)"
  have u0: "0 < u" by (simp add: u_def)
  have "u \<le> x"
  proof (cases "- 1022 \<le> expo x")
    case True
    then have "u = 2 powi (expo x - 52)" by (simp add: u_def)
    also have "\<dots> \<le> 2 powi (expo x)" by (rule pow2_le) simp
    finally show ?thesis using b(1) by (rule order_trans)
  next
    case False
    then have "u = 2 powi (- 1074)" by (simp add: u_def)
    with assms show ?thesis by simp
  qed
  then have "of_int 1 \<le> x / u" using u0 by (simp add: pos_le_divide_eq)
  then have "1 \<le> rne (x / u)" by (rule rne_ge)
  then have "0 < rne (x / u)" by simp
  then have "(0::rat) < of_int (rne (x / u))" by (simp only: of_int_0_less_iff)
  then have "0 < of_int (rne (x / u)) * u" using u0 by (rule mult_pos_pos)
  then show ?thesis unfolding fl_unfold [OF x0] u_def .
qed

lemma expo_minus: "expo (- x) = expo x"
  by (simp add: expo_def)

lemma rne_minus: "rne (- x) = - rne x"
proof (cases "x = of_int \<lfloor>x\<rfloor>")
  case True
  then obtain k where "x = of_int k" ..
  then have "- x = of_int (- k)" by simp
  then show ?thesis using \<open>x = of_int k\<close> by (simp only: rne_of_int)
next
  case False
  have lt: "of_int \<lfloor>x\<rfloor> < x"
    by (rule le_neq_trans [OF of_int_floor_le False [THEN not_sym]])
  have up: "x < of_int \<lfloor>x\<rfloor> + 1" by linarith
  have f: "\<lfloor>- x\<rfloor> = - \<lfloor>x\<rfloor> - 1"
    by (rule floor_unique) (use lt up in simp_all)
  have ev: "even (- \<lfloor>x\<rfloor> - 1) \<longleftrightarrow> odd \<lfloor>x\<rfloor>" by simp
  show ?thesis
    unfolding rne_def Let_def f ev using lt
    by (auto simp: algebra_simps)
qed

lemma fl_minus: "fl (- x) = - fl x"
  by (simp add: fl_def Let_def expo_minus rne_minus)

lemma fl_neg:
  assumes "x \<le> - (2 powi (- 1074))"
  shows "fl x < 0"
proof -
  from assms have "2 powi (- 1074) \<le> - x" by simp
  then have "0 < fl (- x)" by (rule fl_pos)
  then show ?thesis by (simp add: fl_minus)
qed

lemma fl_le_pow2:
  assumes "- 1022 \<le> j" and "0 \<le> x" and "x \<le> 2 powi j"
  shows "0 \<le> fl x \<and> fl x \<le> 2 powi j"
proof (cases "x = 0")
  case True
  then show ?thesis by (simp add: fl_zero)
next
  case False
  with assms(2) have ax: "\<bar>x\<bar> = x" by simp
  note b = expo_bounds [OF False, unfolded ax]
  define E where "E = max (expo x) (- 1022)"
  define u where "u = (2::rat) powi (E - 52)"
  have u0: "0 < u" by (simp add: u_def)
  from b(1) assms(3) have "(2::rat) powi (expo x) \<le> 2 powi j" by (rule order_trans)
  then have "expo x \<le> j" by (rule pow2_le_imp)
  with assms(1) have "E - 52 \<le> j" by (simp add: E_def)
  from pow2_split [OF this] have pj: "(2::rat) powi j = of_int (2 ^ nat (j - (E - 52))) * u"
    by (simp only: u_def)
  with assms(3) have "x \<le> of_int (2 ^ nat (j - (E - 52))) * u" by simp
  then have "x / u \<le> of_int (2 ^ nat (j - (E - 52)))" using u0 by (simp add: pos_divide_le_eq)
  then have "rne (x / u) \<le> 2 ^ nat (j - (E - 52))" by (rule rne_le)
  then have "(of_int (rne (x / u)) :: rat) \<le> of_int (2 ^ nat (j - (E - 52)))"
    by (simp only: of_int_le_iff)
  then have "of_int (rne (x / u)) * u \<le> of_int (2 ^ nat (j - (E - 52))) * u"
    using u0 by (simp only: mult_le_cancel_right_pos)
  then have up: "fl x \<le> 2 powi j"
    unfolding fl_unfold [OF False] pj u_def E_def .
  have "of_int 0 \<le> x / u" using assms(2) u0 by simp
  then have "0 \<le> rne (x / u)" by (rule rne_ge)
  then have "(0::rat) \<le> of_int (rne (x / u))" by (simp only: of_int_0_le_iff)
  then have "0 \<le> of_int (rne (x / u)) * u" using u0 by (simp add: mult_nonneg_nonneg)
  then have "0 \<le> fl x" unfolding fl_unfold [OF False] u_def E_def .
  with up show ?thesis by blast
qed

lemma fl_sub_pos_iff: "0 < fl (fl a - fl b) \<longleftrightarrow> fl b < fl a"
proof -
  obtain ka where ka: "fl a = of_int ka * 2 powi (- 1074)" using fl_grid [of a] ..
  obtain kb where kb: "fl b = of_int kb * 2 powi (- 1074)" using fl_grid [of b] ..
  define g where "g = (2::rat) powi (- 1074)"
  have g0: "0 < g" by (simp add: g_def)
  have d: "fl a - fl b = of_int (ka - kb) * g"
    by (simp add: ka kb g_def algebra_simps)
  have lt: "fl b < fl a \<longleftrightarrow> kb < ka"
    unfolding ka kb g_def [symmetric] using g0 by (simp add: mult_less_cancel_right_pos)
  consider "kb < ka" | "kb = ka" | "ka < kb" by linarith
  then show ?thesis
  proof cases
    case 1
    then have "1 \<le> ka - kb" by simp
    then have "(of_int 1 :: rat) \<le> of_int (ka - kb)" by (simp only: of_int_le_iff)
    then have "1 * g \<le> of_int (ka - kb) * g" using g0 by (simp only: mult_le_cancel_right_pos of_int_1)
    then have "2 powi (- 1074) \<le> fl a - fl b" by (simp add: d g_def)
    then have "0 < fl (fl a - fl b)" by (rule fl_pos)
    with 1 lt show ?thesis by simp
  next
    case 2
    then show ?thesis by (simp add: ka kb fl_zero)
  next
    case 3
    then have "ka - kb \<le> - 1" by simp
    then have "(of_int (ka - kb) :: rat) \<le> of_int (- 1)" by (simp only: of_int_le_iff)
    then have "of_int (ka - kb) * g \<le> of_int (- 1) * g" using g0 by (simp only: mult_le_cancel_right_pos)
    then have "fl a - fl b \<le> - (2 powi (- 1074))" by (simp add: d g_def)
    then have "fl (fl a - fl b) < 0" by (rule fl_neg)
    with 3 lt show ?thesis by simp
  qed
qed


section \<open>What an emission does\<close>

subsection \<open>The gates and the successful path\<close>


lemma microTime_eq: "microTime w = (reading (clock w) (ticks w), w\<lparr>ticks := Suc (ticks w)\<rparr>)"
  by (simp add: microTime_def Now_def reading_def)

lemma timing_fresh:
  "start lg = 0 \<Longrightarrow> timing lg w =
      ((fsub (reading (clock w) (ticks w + 1)) (reading (clock w) (ticks w)),
        fsub (reading (clock w) (ticks w + 2)) (reading (clock w) (ticks w))),
       lg\<lparr>start := reading (clock w) (ticks w), lastStep := reading (clock w) (ticks w + 3)\<rparr>,
       w\<lparr>ticks := ticks w + 4\<rparr>)"
  by (simp add: timing_def microTime_eq eval_nat_numeral)

lemma timing_running:
  "start lg \<noteq> 0 \<Longrightarrow> timing lg w =
      ((fsub (reading (clock w) (ticks w)) (start lg),
        fsub (reading (clock w) (ticks w + 1)) (lastStep lg)),
       lg\<lparr>lastStep := reading (clock w) (ticks w + 2)\<rparr>,
       w\<lparr>ticks := ticks w + 3\<rparr>)"
  by (simp add: timing_def microTime_eq eval_nat_numeral)

lemma compose_entry_nonempty: "compose_entry lg t r s level content \<noteq> []"
  by (simp add: compose_entry_def)

lemma l_rejects:
  assumes "LevelWeights level = Some a" and "a < levelWeight lg"
  shows "l level content lg w =
           (Returned, lg,
            w\<lparr>stderr := stderr w @
                 [''LOGGER: Log level not allowed: '' @ level,
                  ''LOGGER: Level weight of minimum log level: '' @ fmt_d (levelWeight lg) @
                  '', level weight of selected level: '' @ fmt_d a]\<rparr>)"
  using assms by (simp add: l_def weight_of_def Println_def)

lemma l_invalid:
  assumes "LevelWeights level = None"
  shows "l level content lg w =
           (Returned, lg, w\<lparr>stderr := stderr w @ [''LOGGER: Invalid log level: '' @ level]\<rparr>)"
  using assms by (simp add: l_def Println_def)

lemma check_log_dir_ok:
  assumes "io_ok lg w"
  shows "check_log_dir lg w =
           Some (lg\<lparr>logDirExists := (logDirExists lg \<or> LogDir lg \<notin> dirs w)\<rparr>,
                 w\<lparr>dirs := insert (LogDir lg) (dirs w)\<rparr>)"
  using assms
  by (cases "logDirExists lg"; cases "LogDir lg \<in> dirs w")
     (simp_all add: check_log_dir_def io_ok_def dir_not_exist_def mkdir_def insert_absorb)

lemma l_emits:
  assumes "LevelWeights level = Some a" and "levelWeight lg \<le> a" and "io_ok lg w"
  shows "l level content lg w =
           (if level = LevelFatal then Panicked content else Returned,
            emit_logger lg w, emit_world lg w (entry_of level content lg w))"
proof (cases "start lg = 0")
  case True
  with assms show ?thesis
    by (simp add: l_def weight_of_def check_log_dir_ok Now_def open_append_def io_ok_def
         timing_fresh write_string_def close_file_def content_of_def log_path_def main_log_def
         emit_logger_def emit_world_def entry_of_def runtime_of_def step_of_def Let_def
         compose_entry_def
         eval_nat_numeral)
next
  case False
  with assms show ?thesis
    by (simp add: l_def weight_of_def check_log_dir_ok Now_def open_append_def io_ok_def
         timing_running write_string_def close_file_def content_of_def log_path_def main_log_def
         emit_logger_def emit_world_def entry_of_def runtime_of_def step_of_def Let_def
         compose_entry_def
         eval_nat_numeral)
qed

lemma l_legacy_emits:
  assumes "io_ok lg w"
  shows "l_legacy level content lg w =
           (Returned, emit_logger lg w,
            emit_world lg w (entry_of_legacy (coerce_level level) content lg w))"
proof (cases "start lg = 0")
  case True
  with assms show ?thesis
    by (simp add: l_legacy_def check_log_dir_ok Now_def open_append_def io_ok_def
         timing_fresh write_string_def close_file_def content_of_def log_path_def main_log_def
         emit_logger_def emit_world_def entry_of_legacy_def runtime_of_def step_of_def Let_def
         compose_entry_legacy_def
         eval_nat_numeral)
next
  case False
  with assms show ?thesis
    by (simp add: l_legacy_def check_log_dir_ok Now_def open_append_def io_ok_def
         timing_running write_string_def close_file_def content_of_def log_path_def main_log_def
         emit_logger_def emit_world_def entry_of_legacy_def runtime_of_def step_of_def Let_def
         compose_entry_legacy_def
         eval_nat_numeral)
qed

lemma emit_world_files_changed:
  "entry \<noteq> [] \<Longrightarrow> files (emit_world lg w entry) \<noteq> files w"
proof
  assume ne: "entry \<noteq> []" and eq: "files (emit_world lg w entry) = files w"
  from eq have "files (emit_world lg w entry) (main_log lg w) = files w (main_log lg w)"
    by simp
  with ne show False
    by (cases "files w (main_log lg w)") (simp_all add: emit_world_def content_of_def)
qed

lemma LevelWeights_range: "LevelWeights level = Some a \<Longrightarrow> 0 \<le> a \<and> a \<le> 6"
  by (simp add: LevelWeights_def split: if_splits)


subsection \<open>Unfolding the constants and the concrete inputs\<close>

lemmas level_defs = LevelWeights_def LevelDebug_def LevelInfo_def LevelNotice_def LevelWarning_def
        LevelError_def LevelEmergency_def LevelFatal_def

lemmas fixture_defs = logger0_def init_levelWeight_def package_vars_def world0_def weight_of_def
   clock_ticking_def clock_jump_def clock_calm_def time_at_def request0_def New_def
   request_ctx0_def ctx0_def request1_def geo_request0_def geo_request1_def New_geo_def
   Sprintf_zero_def

lemma io_ok_0: "io_ok logger0 world0"
  by (simp add: io_ok_def fixture_defs)

subsection \<open>The two cases of the threshold setter\<close>

lemma SetMinimumLogLevel_found:
  "LevelWeights (ToUpper level) = Some a \<Longrightarrow>
   SetMinimumLogLevel ToUpper level lg =
     Some (lg\<lparr>minimumLogLevel := ToUpper level, levelWeight := a\<rparr>)"
  by (subst SetMinimumLogLevel.simps) (simp add: weight_of_def)

lemma SetMinimumLogLevel_fallback:
  assumes "LevelWeights (ToUpper level) = None" and "ToUpper LevelNotice = LevelNotice"
  shows "SetMinimumLogLevel ToUpper level lg =
     Some (lg\<lparr>minimumLogLevel := LevelNotice, levelWeight := 2\<rparr>)"
proof -
  have n: "LevelWeights (ToUpper LevelNotice) = Some 2"
    using assms(2) by (simp add: level_defs)
  have "SetMinimumLogLevel ToUpper level lg = SetMinimumLogLevel ToUpper LevelNotice lg"
    using assms(1) by (subst SetMinimumLogLevel.simps) simp
  also have "\<dots> = Some (lg\<lparr>minimumLogLevel := LevelNotice, levelWeight := 2\<rparr>)"
    using SetMinimumLogLevel_found [of ToUpper LevelNotice 2 lg] n assms(2) by simp
  finally show ?thesis .
qed

lemma ToUpperASCII_Notice: "ToUpperASCII LevelNotice = LevelNotice"
  by (simp add: ToUpperASCII_def upper_char_def LevelNotice_def)


subsection \<open>An emission where operations may fail\<close>

lemma check_log_dir_Some:
  assumes "check_log_dir lg w = Some (lg1, w1)"
  shows "\<exists>b D. lg1 = lg\<lparr>logDirExists := b\<rparr> \<and> w1 = w\<lparr>dirs := D\<rparr>"
proof (cases "\<not> logDirExists lg \<and> dir_not_exist w (LogDir lg)")
  case True
  with assms have "lg1 = lg\<lparr>logDirExists := True\<rparr> \<and> w1 = w\<lparr>dirs := insert (LogDir lg) (dirs w)\<rparr>"
    by (auto simp: check_log_dir_def mkdir_def split: if_splits)
  then show ?thesis by blast
next
  case False
  with assms have "lg1 = lg\<lparr>logDirExists := logDirExists lg\<rparr> \<and> w1 = w\<lparr>dirs := dirs w\<rparr>"
    by (auto simp: check_log_dir_def split: if_splits)
  then show ?thesis by blast
qed

lemma timing_cases:
  "timing lg w =
     ((runtime_of lg (w\<lparr>ticks := ticks w - 1\<rparr>), step_of lg (w\<lparr>ticks := ticks w - 1\<rparr>)),
      lg\<lparr>start := (if start lg = 0 then reading (clock w) (ticks w) else start lg),
         lastStep := (if start lg = 0 then reading (clock w) (ticks w + 3)
                      else reading (clock w) (ticks w + 2))\<rparr>,
      w\<lparr>ticks := ticks w + (if start lg = 0 then 4 else 3)\<rparr>)"
  if "0 < ticks w"
  using that by (cases "start lg = 0") (simp_all add: timing_fresh timing_running runtime_of_def step_of_def eval_nat_numeral)

lemma compose_entry_frame:
  "compose_entry (lg\<lparr>logDirExists := b\<rparr>) = compose_entry lg"
  "compose_entry (lg\<lparr>start := x\<rparr>) = compose_entry lg"
  "compose_entry (lg\<lparr>lastStep := y\<rparr>) = compose_entry lg"
  by (simp_all add: compose_entry_def fun_eq_iff)

lemma l_panic_written:
  assumes "fst (l level content lg w) = Panicked c"
  shows "level = LevelFatal \<and> c = content \<and>
         files (snd (snd (l level content lg w))) =
           (files w)(main_log lg w \<mapsto> content_of w (main_log lg w) @ entry_of level content lg w)"
proof -
  from assms have valid: "LevelWeights level \<noteq> None"
    and allowed: "\<not> levelWeight lg > weight_of level"
    by (auto simp: l_def split: if_splits)
  from assms valid allowed obtain lg1 w1 where c: "check_log_dir lg w = Some (lg1, w1)"
    by (cases "check_log_dir lg w") (auto simp: l_def)
  then obtain b D where lg1: "lg1 = lg\<lparr>logDirExists := b\<rparr>" and w1: "w1 = w\<lparr>dirs := D\<rparr>"
    using check_log_dir_Some by blast
  note stage = l_def c lg1 w1 Now_def open_append_def write_string_def close_file_def
    main_log_def log_path_def timing_cases Let_def
  have A: "\<not> (io_fails w OpenFile (main_log lg w) \<or> LogDir lg \<notin> D)"
  proof
    assume "io_fails w OpenFile (main_log lg w) \<or> LogDir lg \<notin> D"
    with assms valid allowed show False by (simp add: stage)
  qed
  have B: "\<not> io_fails w WriteString (main_log lg w)"
  proof
    assume "io_fails w WriteString (main_log lg w)"
    with assms valid allowed A show False by (simp add: stage)
  qed
  have C: "\<not> io_fails w Close (main_log lg w)"
  proof
    assume "io_fails w Close (main_log lg w)"
    with assms valid allowed A B show False by (simp add: stage)
  qed
  from assms valid allowed A B C show ?thesis
    by (simp add: stage content_of_def entry_of_def compose_entry_frame runtime_of_def
          step_of_def split: if_splits)
qed

lemma threshold_ok_logger0: "threshold_ok logger0"
  by (simp add: threshold_ok_def level_defs fixture_defs)

lemma main_log_0: "main_log logger0 world0 = ''./logs/2024-01-02.log''"
  by (simp add: main_log_def log_path_def fixture_defs)

subsection \<open>Formatted durations\<close>

lemma trunc_small: "\<bar>x\<bar> < 1 \<Longrightarrow> trunc x = 0"
  by (auto simp: trunc_def floor_eq_iff abs_if split: if_splits)

lemma fmt_0d_zero: "fmt_0d 2 0 = ''00''" "fmt_0d 6 0 = ''000000''"
  by (simp_all add: fmt_0d_def dec.simps digit_def eval_nat_numeral)

lemma trunc_int: "trunc (of_int i) = i"
  by (simp add: trunc_def)

lemma int_of_float64_small: "\<bar>x\<bar> < 1 \<Longrightarrow> int_of_float64 x = 0"
  by (simp add: int_of_float64_def trunc_small)

lemma int_of_float64_int:
  "- (2 ^ 63) \<le> i \<Longrightarrow> i < 2 ^ 63 \<Longrightarrow> int_of_float64 (of_int i) = i"
  by (simp add: int_of_float64_def trunc_int)

lemma int_of_float64_nonzero: "1 \<le> \<bar>x\<bar> \<Longrightarrow> int_of_float64 x \<noteq> 0"
proof -
  assume a: "1 \<le> \<bar>x\<bar>"
  have "trunc x \<noteq> 0"
  proof (cases "x < 0")
    case True
    define k where "k = \<lfloor>- x\<rfloor>"
    from True a have "1 \<le> - x" by simp
    then have "1 \<le> k" by (simp add: k_def le_floor_iff)
    moreover have "trunc x = - k" using True by (simp add: trunc_def k_def)
    ultimately show ?thesis by simp
  next
    case False
    define k where "k = \<lfloor>x\<rfloor>"
    from False a have "1 \<le> x" by simp
    then have "1 \<le> k" by (simp add: k_def le_floor_iff)
    moreover have "trunc x = k" using False by (simp add: trunc_def k_def)
    ultimately show ?thesis by simp
  qed
  then show ?thesis by (simp add: int_of_float64_def)
qed

lemma int_of_float64_zero_iff: "int_of_float64 x = 0 \<longleftrightarrow> \<bar>x\<bar> < 1"
  using int_of_float64_nonzero [of x] int_of_float64_small [of x] by fastforce

lemma float64_of_int_small: "\<bar>i\<bar> \<le> 2 ^ 53 \<Longrightarrow> float64_of_int i = of_int i"
  by (simp add: float64_of_int_def fl_of_int)

lemma float64_of_wrap_0: "float64_of_int (wrap_int 0) = 0" "float64_of_int 0 = 0"
  by (simp_all add: float64_of_int_def wrap_int_def fl_zero)

lemma fsub_self: "fsub x x = 0"
  by (simp add: fsub_def fl_zero)

lemma fl_numeral: "(numeral n :: int) \<le> 2 ^ 53 \<Longrightarrow> fl (numeral n) = numeral n"
  using fl_of_int [of "numeral n"] by simp

lemma fl_one: "fl 1 = 1"
  using fl_of_int [of 1] by simp

lemma format_zero: "formatMicroTimeDuration 0 = zero_duration"
  by (simp add: formatMicroTimeDuration_def fdiv_def fsub_def fmul_def fl_zero
        int_of_float64_small float64_of_wrap_0 fmt_0d_zero zero_duration_def)


lemma digit_nonzero: "0 < n \<Longrightarrow> n < 10 \<Longrightarrow> digit n \<in> set ''123456789''"
proof -
  assume "0 < n" "n < 10"
  then have "n \<in> {1, 2, 3, 4, 5, 6, 7, 8, 9}" by auto
  then show ?thesis by (auto simp: digit_def)
qed

lemma dec_nonzero: "0 < n \<Longrightarrow> \<exists>ch \<in> set (dec n). ch \<in> set ''123456789''"
proof (induction n rule: dec.induct)
  case (1 n)
  show ?case
  proof (cases "n < 10")
    case True
    with "1.prems" digit_nonzero [of n] show ?thesis
      by (subst dec.simps) simp
  next
    case False
    then have "0 < n div 10" by simp
    with False "1.IH" obtain ch where "ch \<in> set (dec (n div 10))" "ch \<in> set ''123456789''"
      by blast
    with False show ?thesis
      by (subst dec.simps) auto
  qed
qed

lemma fmt_0d_digits: "ch \<in> set (dec (nat \<bar>i\<bar>)) \<Longrightarrow> ch \<in> set (fmt_0d N i)"
  by (cases "i < 0") (simp_all add: fmt_0d_def Let_def)

lemma fmt_0d_nonzero: "i \<noteq> 0 \<Longrightarrow> \<exists>ch \<in> set (fmt_0d N i). ch \<in> set ''123456789''"
proof -
  assume "i \<noteq> 0"
  then have "0 < nat \<bar>i\<bar>" by simp
  from dec_nonzero [OF this] obtain ch where "ch \<in> set (dec (nat \<bar>i\<bar>))" "ch \<in> set ''123456789''"
    by blast
  then show ?thesis
    using fmt_0d_digits [of ch i N] by blast
qed

lemma fl_abs_ge_one: "1 \<le> \<bar>x\<bar> \<Longrightarrow> 1 \<le> \<bar>fl x\<bar>"
proof (cases "x < 0")
  case True
  assume "1 \<le> \<bar>x\<bar>"
  with True have "2 powi 0 \<le> - x" by simp
  then have "2 powi 0 \<le> fl (- x)" by (rule fl_ge_pow2 [rotated]) simp
  then show ?thesis by (simp add: fl_minus)
next
  case False
  assume "1 \<le> \<bar>x\<bar>"
  with False have "2 powi 0 \<le> x" by simp
  then have "2 powi 0 \<le> fl x" by (rule fl_ge_pow2 [rotated]) simp
  then show ?thesis by simp
qed

lemma fl_fraction:
  assumes "\<bar>x\<bar> \<le> 1 / 2"
  shows "int_of_float64 (fl x) = 0"
proof -
  have pos: "int_of_float64 (fl y) = 0" if "0 \<le> y" "y \<le> 1 / 2" for y
  proof -
    from that(2) have "y \<le> 2 powi (- 1)" by (simp add: power_int_minus)
    with fl_le_pow2 [of "- 1" y] that(1) have "0 \<le> fl y \<and> fl y \<le> 2 powi (- 1)" by simp
    then have "\<bar>fl y\<bar> < 1" by (simp add: power_int_minus)
    then show ?thesis by (rule int_of_float64_small)
  qed
  show ?thesis
  proof (cases "x < 0")
    case True
    with assms pos [of "- x"] have "int_of_float64 (fl (- x)) = 0" by simp
    then show ?thesis by (simp add: fl_minus int_of_float64_zero_iff)
  next
    case False
    with assms pos [of x] show ?thesis by simp
  qed
qed

text \<open>
  A duration is printed as zero exactly when its product with \<open>1000000\<close>, rounded, is less
  than one in magnitude.
\<close>

lemma format_zero_iff:
  assumes "fl d = d"
  shows "formatMicroTimeDuration d = zero_duration \<longleftrightarrow> \<bar>fmul d 1000000\<bar> < 1"
proof
  assume small: "\<bar>fmul d 1000000\<bar> < 1"
  have "\<bar>d * 1000000\<bar> < 1"
  proof (rule ccontr)
    assume "\<not> \<bar>d * 1000000\<bar> < 1"
    then have "1 \<le> \<bar>d * 1000000\<bar>" by simp
    from fl_abs_ge_one [OF this] small show False by (simp add: fmul_def)
  qed
  then have d: "\<bar>d\<bar> < 1 / 1000000" by (simp add: abs_mult)
  then have q: "int_of_float64 (fl (d / 86400)) = 0" "int_of_float64 (fl (d / 3600)) = 0"
    "int_of_float64 (fl (d / 60)) = 0"
    by (simp_all add: fl_fraction)
  from d have s: "int_of_float64 d = 0" by (simp add: int_of_float64_small)
  from small have m: "int_of_float64 (fl (d * 1000000)) = 0"
    by (simp add: int_of_float64_small fmul_def)
  show "formatMicroTimeDuration d = zero_duration"
    by (simp add: formatMicroTimeDuration_def Let_def fdiv_def fsub_def fmul_def
          float64_of_wrap_0 q s m assms fmt_0d_zero zero_duration_def)
next
  assume zero: "formatMicroTimeDuration d = zero_duration"
  define days where "days = int_of_float64 (fdiv d 86400)"
  define d1 where "d1 = fsub d (float64_of_int (wrap_int (days * 86400)))"
  define hours where "hours = int_of_float64 (fdiv d1 3600)"
  define d2 where "d2 = fsub d1 (float64_of_int (wrap_int (hours * 3600)))"
  define minutes where "minutes = int_of_float64 (fdiv d2 60)"
  define d3 where "d3 = fsub d2 (float64_of_int (wrap_int (minutes * 60)))"
  define seconds where "seconds = int_of_float64 d3"
  define d4 where "d4 = fsub d3 (float64_of_int seconds)"
  define micro where "micro = int_of_float64 (fmul d4 1000000)"
  have S: "formatMicroTimeDuration d =
      fmt_0d 2 days @ '':'' @ fmt_0d 2 hours @ '':'' @ fmt_0d 2 minutes @ '':'' @
      fmt_0d 2 seconds @ ''.'' @ fmt_0d 6 micro"
    by (simp add: formatMicroTimeDuration_def Let_def days_def d1_def hours_def d2_def
          minutes_def d3_def seconds_def d4_def micro_def)
  have all: "days = 0 \<and> hours = 0 \<and> minutes = 0 \<and> seconds = 0 \<and> micro = 0"
  proof (rule ccontr)
    assume "\<not> ?thesis"
    then consider "days \<noteq> 0" | "hours \<noteq> 0" | "minutes \<noteq> 0" | "seconds \<noteq> 0" | "micro \<noteq> 0"
      by blast
    then obtain N i where f: "i \<noteq> 0" and sub: "set (fmt_0d N i) \<subseteq> set (formatMicroTimeDuration d)"
      unfolding S by cases (fastforce+)
    from fmt_0d_nonzero [OF f, of N] sub
    obtain ch where "ch \<in> set (formatMicroTimeDuration d)" "ch \<in> set ''123456789''"
      by blast
    with zero show False by (auto simp: zero_duration_def)
  qed
  then have z: "days = 0" "hours = 0" "minutes = 0" "seconds = 0" "micro = 0" by simp_all
  have "d1 = d" by (simp add: d1_def z float64_of_wrap_0 fsub_def assms)
  then have "d2 = d" by (simp add: d2_def z float64_of_wrap_0 fsub_def assms)
  then have "d3 = d" by (simp add: d3_def z float64_of_wrap_0 fsub_def assms)
  then have "d4 = d" by (simp add: d4_def z float64_of_wrap_0 fsub_def assms)
  with z(5) have "int_of_float64 (fmul d 1000000) = 0" by (simp add: micro_def)
  then show "\<bar>fmul d 1000000\<bar> < 1" by (simp add: int_of_float64_zero_iff)
qed

lemma format_nonzero:
  assumes "fl d = d" and "1 / 1000000 \<le> d"
  shows "formatMicroTimeDuration d \<noteq> zero_duration"
proof -
  from assms(2) have "1 \<le> \<bar>d * 1000000\<bar>" by simp
  from fl_abs_ge_one [OF this] have "\<not> \<bar>fmul d 1000000\<bar> < 1" by (simp add: fmul_def)
  with format_zero_iff [OF assms(1)] show ?thesis by simp
qed

lemma io_ok_emit:
  "io_ok lg w \<Longrightarrow> io_ok (emit_logger lg w) (emit_world lg w entry)"
  by (simp add: io_ok_def emit_logger_def emit_world_def)

lemma dec_digit: "n < 10 \<Longrightarrow> dec n = [digit n]"
  by (subst dec.simps) simp

lemma fmt_0d_small: "0 \<le> i \<Longrightarrow> i < 10 \<Longrightarrow> fmt_0d N i = replicate (N - 1) (CHR ''0'') @ [digit (nat i)]"
  by (simp add: fmt_0d_def dec_digit)

lemma format_seconds:
  assumes "0 \<le> n" and "n \<le> 30"
  shows "formatMicroTimeDuration (of_int n) = ''00:00:00:'' @ fmt_0d 2 n @ ''.000000''"
proof -
  have f: "fl (of_int n) = of_int n"
    using assms by (simp add: fl_of_int)
  have q: "int_of_float64 (fl (of_int n / 86400)) = 0"
       "int_of_float64 (fl (of_int n / 3600)) = 0"
       "int_of_float64 (fl (of_int n / 60)) = 0"
    using assms by (simp_all add: fl_fraction)
  have s: "int_of_float64 (of_int n) = n"
    using assms by (simp add: int_of_float64_int)
  have fi: "float64_of_int n = of_int n"
    using assms by (simp add: float64_of_int_small)
  show ?thesis
    by (simp add: formatMicroTimeDuration_def Let_def fdiv_def fsub_def fmul_def
          float64_of_wrap_0 fi f q s fl_zero int_of_float64_small fmt_0d_zero)
qed

lemma format_one: "formatMicroTimeDuration 1 = ''00:00:00:01.000000''"
  using format_seconds [of 1] by (simp add: fmt_0d_small digit_def)

lemma format_two: "formatMicroTimeDuration 2 = ''00:00:00:02.000000''"
  using format_seconds [of 2] by (simp add: fmt_0d_small digit_def eval_nat_numeral)

lemma reading_whole_second:
  assumes "Nanosecond (c k) = 0" and "\<bar>sint (Unix (c k))\<bar> \<le> 2 ^ 53"
  shows "reading c k = of_int (sint (Unix (c k)))"
proof -
  have a: "float64_of_int (sint (Nanosecond (c k))) = 0"
    using assms(1) by (simp add: float64_of_int_def fl_zero)
  have b: "float64_of_int (sint (Unix (c k))) = of_int (sint (Unix (c k)))"
    unfolding float64_of_int_def by (rule fl_of_int [OF assms(2)])
  show ?thesis
    unfolding reading_def a b fdiv_def fadd_def
    by (simp only: div_0 fl_zero add_0_right fl_of_int [OF assms(2)])
qed

lemma reading_pos_iff:
  "0 < fsub (reading c i) (reading c j) \<longleftrightarrow> reading c j < reading c i"
  unfolding reading_def fadd_def fsub_def by (rule fl_sub_pos_iff)

lemma fsub_representable: "fl (fsub x y) = fsub x y"
  by (simp add: fsub_def fl_idem)

lemma reading_clock_calm: "reading clock_calm k = (if k < 5 then 1704164645 else 1704164647)"
  by (simp add: reading_whole_second clock_calm_def time_at_def)

lemma reading_clock_jump: "reading clock_jump k = (if k < 2 then 1704164645 else 1704164646)"
  by (simp add: reading_whole_second clock_jump_def time_at_def)

lemma fsub_seconds:
  "fsub 1704164647 1704164645 = 2" "fsub 1704164646 1704164645 = 1"
  by (simp_all add: fsub_def fl_numeral fl_one)


subsection \<open>What the request loggers do to the main log\<close>

lemma l_frame:
  "LogDir (fst (snd (l level content lg w))) = LogDir lg \<and>
   LogRequestsSeparately (fst (snd (l level content lg w))) = LogRequestsSeparately lg \<and>
   HideRequestsFromMainLog (fst (snd (l level content lg w))) = HideRequestsFromMainLog lg"
proof (cases "LevelWeights level = None \<or> levelWeight lg > weight_of level")
  case True
  then show ?thesis by (auto simp: l_def)
next
  case False
  show ?thesis
  proof (cases "check_log_dir lg w")
    case None
    with False show ?thesis by (simp add: l_def)
  next
    case (Some r)
    then obtain lg1 w1 where c: "check_log_dir lg w = Some (lg1, w1)"
      by (cases r) simp
    then obtain b D where lg1: "lg1 = lg\<lparr>logDirExists := b\<rparr>" and w1: "w1 = w\<lparr>dirs := D\<rparr>"
      using check_log_dir_Some by blast
    from False show ?thesis
      by (simp add: l_def c lg1 w1 Now_def open_append_def write_string_def close_file_def
            timing_cases Let_def)
  qed
qed

lemma log_to_main_frame:
  "LogDir (fst (snd (log_to_main line lg w))) = LogDir lg \<and>
   LogRequestsSeparately (fst (snd (log_to_main line lg w))) = LogRequestsSeparately lg \<and>
   HideRequestsFromMainLog (fst (snd (log_to_main line lg w))) = HideRequestsFromMainLog lg"
  using l_frame [of LevelInfo line lg w] by (simp add: log_to_main_def Log_def)

lemma paths_differ:
  "requests_path lg d \<noteq> log_path lg' d'" "requests_simple_path lg d \<noteq> log_path lg' d'"
proof -
  have "last (requests_path lg d) = CHR ''v''" "last (requests_simple_path lg d) = CHR ''v''"
    "last (log_path lg' d') = CHR ''g''"
    by (simp_all add: requests_path_def requests_simple_path_def log_path_def)
  then show "requests_path lg d \<noteq> log_path lg' d'" "requests_simple_path lg d \<noteq> log_path lg' d'"
    by auto
qed

lemmas paths_differ_sym = paths_differ [THEN not_sym]

lemma LogRequest_main_file:
  "files (snd (snd (snd (LogRequest req lg w)))) (log_path lg' d') =
   files (snd (snd (log_to_main (request_line (Method req) (Path req) (UserAgent req) (IP req)) lg w)))
     (log_path lg' d')"
proof -
  obtain out lg1 w1 where r:
    "log_to_main (request_line (Method req) (Path req) (UserAgent req) (IP req)) lg w = (out, lg1, w1)"
    by (metis prod_cases3)
  show ?thesis
    by (simp add: LogRequest_def r Now_def open_append_def write_string_def Let_def paths_differ paths_differ_sym
          split: option.split)
qed

lemma LogSimpleRequest_main_file:
  "files (snd (snd (LogSimpleRequest method path userAgent ip lg w))) (log_path lg' d') =
   files (snd (snd (log_to_main (request_line method path userAgent ip) lg w))) (log_path lg' d')"
proof -
  obtain out lg1 w1 where r:
    "log_to_main (request_line method path userAgent ip) lg w = (out, lg1, w1)"
    by (metis prod_cases3)
  show ?thesis
    by (simp add: LogSimpleRequest_def r Now_def open_append_def write_string_def Let_def paths_differ paths_differ_sym
          split: option.split)
qed

lemma LevelWeights_Info: "LevelWeights LevelInfo = Some 1"
  by (simp add: level_defs)

lemma log_to_main_file:
  assumes "io_ok lg w"
  shows "files (snd (snd (log_to_main line lg w))) (main_log lg w) =
     (if \<not> (LogRequestsSeparately lg \<and> HideRequestsFromMainLog lg) \<and> levelWeight lg \<le> 1
      then Some (content_of w (main_log lg w) @ entry_of LevelInfo line lg w)
      else files w (main_log lg w))"
proof (cases "LogRequestsSeparately lg \<and> HideRequestsFromMainLog lg")
  case True
  then show ?thesis by (simp add: log_to_main_def)
next
  case False
  show ?thesis
  proof (cases "levelWeight lg \<le> 1")
    case True
    with False assms l_emits [OF LevelWeights_Info, of lg w line] show ?thesis
      by (auto simp: log_to_main_def Log_def emit_world_def)
  next
    case f: False
    with False l_rejects [OF LevelWeights_Info, of lg line w] show ?thesis
      by (auto simp: log_to_main_def Log_def)
  qed
qed

lemma appended_differs: "e \<noteq> [] \<Longrightarrow> Some (content_of w p @ e) \<noteq> files w p"
  by (cases "files w p") (simp_all add: content_of_def)


subsection \<open>The request file\<close>

lemma dec_small: "dec 7 = ''7''" "dec 3 = ''3''" "dec 0 = ''0''"
  by (simp_all add: dec_digit digit_def eval_nat_numeral)

lemma FormatUint_small: "FormatUint 7 = ''7''" "FormatUint 3 = ''3''" "FormatUint 0 = ''0''"
  by (simp_all add: FormatUint_def dec_small)

lemma LogRequest_hidden:
  assumes "LogRequestsSeparately lg" and "HideRequestsFromMainLog lg"
    and "\<forall>op p. \<not> io_fails w op p" and "LogDir lg \<in> dirs w"
  shows "LogRequest req lg w =
     (Returned, req\<lparr>UserAgent := ReplaceAll_comma (UserAgent req)\<rparr>, lg,
      w\<lparr>ticks := Suc (ticks w),
        files := (files w)(requests_path lg (Format_date (clock w (ticks w))) \<mapsto>
          content_of w (requests_path lg (Format_date (clock w (ticks w)))) @
          ToCSV (req\<lparr>UserAgent := ReplaceAll_comma (UserAgent req)\<rparr>))\<rparr>)"
  using assms
  by (simp add: LogRequest_def log_to_main_def Now_def open_append_def write_string_def
        content_of_def Let_def)

lemma LogRequest_geo_hidden:
  assumes "LogRequestsSeparately lg" and "HideRequestsFromMainLog lg"
    and "\<forall>op p. \<not> io_fails w op p" and "LogDir lg \<in> dirs w"
  shows "LogRequest_geo f req lg w =
     (Returned, req\<lparr>UserAgent := ReplaceAll_comma (UserAgent req)\<rparr>, lg,
      w\<lparr>ticks := Suc (ticks w),
        files := (files w)(requests_path lg (Format_date (clock w (ticks w))) \<mapsto>
          (case files w (requests_path lg (Format_date (clock w (ticks w)))) of
             None \<Rightarrow> Join GetCSVHeader_geo '','' @ [CHR 0x0A]
           | Some c \<Rightarrow> c) @
          ToCSV_geo f (req\<lparr>UserAgent := ReplaceAll_comma (UserAgent req)\<rparr>))\<rparr>)"
  using assms
  by (cases "files w (requests_path lg (Format_date (clock w (ticks w))))")
     (simp_all add: LogRequest_geo_def log_to_main_def Now_def write_header_def file_not_exist_def
        create_file_def close_file_def open_append_def write_string_def content_of_def Let_def)

lemma ToCSV_geo_follows_header:
  "ToCSV_geo f r = row_of (csv_field_geo f r) GetCSVHeader_geo"
  by (simp add: ToCSV_geo_def row_of_def GetCSVHeader_geo_def csv_field_geo_def csv_field_def)


lemma ReplaceAll_comma_props:
  "CHR '','' \<notin> set (ReplaceAll_comma ua)"
  "length (ReplaceAll_comma ua) = length ua"
  "i < length ua \<Longrightarrow>
     ReplaceAll_comma ua ! i = (if ua ! i = CHR '','' then CHR '';'' else ua ! i)"
  by (auto simp: ReplaceAll_comma_def)

lemma LogRequest_Returned:
  assumes "LogRequestsSeparately lg" and "LogRequest req lg w = (Returned, req', lg', w')"
  shows "req' = req\<lparr>UserAgent := ReplaceAll_comma (UserAgent req)\<rparr>"
proof -
  obtain out lg1 w1 where r:
    "log_to_main (request_line (Method req) (Path req) (UserAgent req) (IP req)) lg w = (out, lg1, w1)"
    by (metis prod_cases3)
  with log_to_main_frame [of "request_line (Method req) (Path req) (UserAgent req) (IP req)" lg w]
    assms(1)
  have s: "LogRequestsSeparately lg1" by simp
  from assms(2) show ?thesis
    by (simp add: LogRequest_def r s Let_def Now_def split: if_splits option.splits)
qed

lemma LogRequest_geo_Returned:
  assumes "LogRequestsSeparately lg" and "LogRequest_geo f req lg w = (Returned, req', lg', w')"
  shows "req' = req\<lparr>UserAgent := ReplaceAll_comma (UserAgent req)\<rparr>"
proof -
  obtain out lg1 w1 where r:
    "log_to_main (request_line (Method req) (Path req) (UserAgent req) (IP req)) lg w = (out, lg1, w1)"
    by (metis prod_cases3)
  with log_to_main_frame [of "request_line (Method req) (Path req) (UserAgent req) (IP req)" lg w]
    assms(1)
  have s: "LogRequestsSeparately lg1" by simp
  from assms(2) show ?thesis
    by (simp add: LogRequest_geo_def r s Let_def Now_def split: if_splits option.splits)
qed


lemma log_to_main_ok:
  assumes "io_ok lg w" and "LogDir lg \<in> dirs w"
  shows "fst (log_to_main line lg w) = Returned
       \<and> LogDir (fst (snd (log_to_main line lg w))) = LogDir lg
       \<and> LogRequestsSeparately (fst (snd (log_to_main line lg w))) = LogRequestsSeparately lg
       \<and> (\<forall>op p. \<not> io_fails (snd (snd (log_to_main line lg w))) op p)
       \<and> LogDir lg \<in> dirs (snd (snd (log_to_main line lg w)))
       \<and> clock (snd (snd (log_to_main line lg w))) = clock w
       \<and> files (snd (snd (log_to_main line lg w))) (requests_path lg' d) =
           files w (requests_path lg' d)"
proof (cases "LogRequestsSeparately lg \<and> HideRequestsFromMainLog lg")
  case True
  with assms show ?thesis by (simp add: log_to_main_def io_ok_def)
next
  case False
  show ?thesis
  proof (cases "levelWeight lg \<le> 1")
    case True
    from l_emits [OF LevelWeights_Info True assms(1), of line] False assms show ?thesis
      by (simp add: log_to_main_def Log_def emit_logger_def emit_world_def io_ok_def
            main_log_def paths_differ LevelInfo_def LevelFatal_def)
  next
    case f: False
    then have "1 < levelWeight lg" by simp
    from l_rejects [OF LevelWeights_Info this, of line w] False assms show ?thesis
      by (simp add: log_to_main_def Log_def io_ok_def)
  qed
qed

lemma requests_path_cong: "LogDir lg1 = LogDir lg \<Longrightarrow> requests_path lg1 d = requests_path lg d"
  by (simp add: requests_path_def)

lemma LogRequest_ok:
  assumes "LogRequestsSeparately lg" and "io_ok lg w" and "LogDir lg \<in> dirs w"
    and "snd (log_to_main (request_line (Method req) (Path req) (UserAgent req) (IP req)) lg w)
           = (lg1, w1)"
  shows "LogRequest req lg w =
     (Returned, req\<lparr>UserAgent := ReplaceAll_comma (UserAgent req)\<rparr>, lg1,
      w1\<lparr>ticks := Suc (ticks w1),
         files := (files w1)(requests_path lg (Format_date (clock w (ticks w1))) \<mapsto>
           content_of w (requests_path lg (Format_date (clock w (ticks w1)))) @
           ToCSV (req\<lparr>UserAgent := ReplaceAll_comma (UserAgent req)\<rparr>))\<rparr>)"
proof -
  let ?line = "request_line (Method req) (Path req) (UserAgent req) (IP req)"
  note ok = log_to_main_ok [OF assms(2,3), of ?line]
  from assms(4) have lw: "fst (snd (log_to_main ?line lg w)) = lg1"
    "snd (snd (log_to_main ?line lg w)) = w1"
    by simp_all
  from ok have r: "log_to_main ?line lg w = (Returned, lg1, w1)"
    unfolding lw [symmetric] by (simp add: prod_eq_iff)
  from ok assms(1) have p: "LogDir lg1 = LogDir lg" "LogRequestsSeparately lg1"
    "\<forall>op p. \<not> io_fails w1 op p" "LogDir lg \<in> dirs w1" "clock w1 = clock w"
    unfolding lw by simp_all
  from ok have q: "\<And>d. files w1 (requests_path lg d) = files w (requests_path lg d)"
    unfolding lw by simp
  show ?thesis
    by (simp add: LogRequest_def r p q requests_path_cong [OF p(1)] Now_def open_append_def
          write_string_def content_of_def Let_def)
qed

lemma LogRequest_geo_ok:
  assumes "LogRequestsSeparately lg" and "io_ok lg w" and "LogDir lg \<in> dirs w"
    and "snd (log_to_main (request_line (Method req) (Path req) (UserAgent req) (IP req)) lg w)
           = (lg1, w1)"
  shows "LogRequest_geo f req lg w =
     (Returned, req\<lparr>UserAgent := ReplaceAll_comma (UserAgent req)\<rparr>, lg1,
      w1\<lparr>ticks := Suc (ticks w1),
         files := (files w1)(requests_path lg (Format_date (clock w (ticks w1))) \<mapsto>
           (case files w (requests_path lg (Format_date (clock w (ticks w1)))) of
              None \<Rightarrow> Join GetCSVHeader_geo '','' @ [CHR 0x0A]
            | Some c \<Rightarrow> c) @
           ToCSV_geo f (req\<lparr>UserAgent := ReplaceAll_comma (UserAgent req)\<rparr>))\<rparr>)"
proof -
  let ?line = "request_line (Method req) (Path req) (UserAgent req) (IP req)"
  note ok = log_to_main_ok [OF assms(2,3), of ?line]
  from assms(4) have lw: "fst (snd (log_to_main ?line lg w)) = lg1"
    "snd (snd (log_to_main ?line lg w)) = w1"
    by simp_all
  from ok have r: "log_to_main ?line lg w = (Returned, lg1, w1)"
    unfolding lw [symmetric] by (simp add: prod_eq_iff)
  from ok assms(1) have p: "LogDir lg1 = LogDir lg" "LogRequestsSeparately lg1"
    "\<forall>op p. \<not> io_fails w1 op p" "LogDir lg \<in> dirs w1" "clock w1 = clock w"
    unfolding lw by simp_all
  from ok have q: "\<And>d. files w1 (requests_path lg d) = files w (requests_path lg d)"
    unfolding lw by simp
  show ?thesis
    by (cases "files w (requests_path lg (Format_date (clock w (ticks w1))))")
       (simp_all add: LogRequest_geo_def r p q requests_path_cong [OF p(1)] Now_def
          write_header_def file_not_exist_def create_file_def close_file_def open_append_def
          write_string_def content_of_def Let_def)
qed

lemma commas_simps:
  "commas [] = 0" "commas (a @ b) = commas a + commas b"
  "commas (c # s) = (if c = CHR '','' then 1 else 0) + commas s"
  by (simp_all add: commas_def)

lemma digit_no_comma: "n < 10 \<Longrightarrow> digit n \<noteq> CHR '',''"
proof -
  assume "n < 10"
  then have "n \<in> {0, 1, 2, 3, 4, 5, 6, 7, 8, 9}" by auto
  then show ?thesis by (auto simp: digit_def)
qed

lemma commas_dec: "commas (dec n) = 0"
proof (induction n rule: dec.induct)
  case (1 n)
  show ?case
  proof (cases "n < 10")
    case True
    then show ?thesis
      by (subst dec.simps) (simp add: commas_simps digit_no_comma)
  next
    case False
    with "1.IH" show ?thesis
      by (subst dec.simps) (simp add: commas_simps digit_no_comma)
  qed
qed

lemma commas_ReplaceAll_comma: "commas (ReplaceAll_comma s) = 0"
  by (simp add: commas_def ReplaceAll_comma_def filter_map o_def)

lemma commas_ToCSV:
  "commas (ToCSV (r\<lparr>UserAgent := ReplaceAll_comma (UserAgent r)\<rparr>)) =
     9 + commas_outside_user_agent r"
  by (simp add: ToCSV_def commas_simps commas_dec commas_ReplaceAll_comma FormatUint_def
        commas_outside_user_agent_def)

lemma commas_ToCSV_geo:
  "commas (ToCSV_geo f (r\<lparr>UserAgent := ReplaceAll_comma (UserAgent r)\<rparr>)) =
     19 + commas_outside_user_agent r + commas_geo_fields f r"
  by (simp add: ToCSV_geo_def commas_simps commas_dec commas_ReplaceAll_comma FormatUint_def
        commas_outside_user_agent_def commas_geo_fields_def)

lemma commas_headers:
  "commas (Join GetCSVHeader '','') = 9" "commas (Join GetCSVHeader_geo '','') = 19"
  by (simp_all add: GetCSVHeader_def GetCSVHeader_geo_def commas_simps)


subsection \<open>The request built from the context\<close>

lemma LogRequestFromFiber_lookup_error:
  assumes "city (P (client_ip c)) = Inl err"
  shows "LogRequestFromFiber f P (Some city) c lg w = (Exited, None, lg, w\<lparr>ticks := Suc (ticks w)\<rparr>)"
  using assms by (simp add: LogRequestFromFiber_def Now_def client_ip_def Let_def)

lemma LogRequestFromFiber_no_db:
  assumes "ctx_Context c = Some rc"
  shows "\<exists>req. fst (snd (LogRequestFromFiber f P None c lg w)) = Some req
         \<and> Continent req = [] \<and> Country req = [] \<and> CountryCode req = [] \<and> City req = []
         \<and> Latitude req = 0 \<and> Longitude req = 0 \<and> Timezone req = [] \<and> PostalCode req = []
         \<and> Subdivision req = [] \<and> SubdivisionCode req = [] \<and> IP req = client_ip c
         \<and> fst (LogRequestFromFiber f P None c lg w) =
             fst (LogRequest_geo f req lg (w\<lparr>ticks := Suc (ticks w)\<rparr>))
         \<and> snd (snd (LogRequestFromFiber f P None c lg w)) =
             snd (snd (LogRequest_geo f req lg (w\<lparr>ticks := Suc (ticks w)\<rparr>)))"
  using assms
  by (simp add: LogRequestFromFiber_def Now_def client_ip_def Let_def New_geo_def split_def)


section \<open>The threshold gate\<close>

text \<open>
  Claim C1. For recognized severities \<open>A\<close> and \<open>B\<close> with the threshold at \<open>B\<close>: when the
  weight of \<open>A\<close> is below the weight of \<open>B\<close>, \<open>l\<close> with level \<open>A\<close> returns with the
  variables, the files, the directories and the clock untouched; its only effect is the two
  diagnostics. When no file operation fails, the files change exactly when the weight of
  the level is at least the weight of the threshold, and the change is the entry appended
  to the log file of the day.
\<close>

theorem threshold_gate:
  assumes "LevelWeights A = Some a" and "LevelWeights B = Some b"
    and "minimumLogLevel lg = B" and "levelWeight lg = b"
  shows "(a < b \<longrightarrow>
           l A content lg w =
             (Returned, lg,
              w\<lparr>stderr := stderr w @
                 [''LOGGER: Log level not allowed: '' @ A,
                  ''LOGGER: Level weight of minimum log level: '' @ fmt_d b @
                  '', level weight of selected level: '' @ fmt_d a]\<rparr>))
       \<and> (io_ok lg w \<longrightarrow> (files (snd (snd (l A content lg w))) \<noteq> files w \<longleftrightarrow> b \<le> a))
       \<and> (io_ok lg w \<and> b \<le> a \<longrightarrow>
             files (snd (snd (l A content lg w))) =
               (files w)(main_log lg w \<mapsto>
                  content_of w (main_log lg w) @ entry_of A content lg w))"
proof (cases "a < b")
  case True
  with assms l_rejects [of A a lg content w] show ?thesis
    by simp
next
  case False
  with assms l_emits [of A a lg w content]
  have e: "io_ok lg w \<Longrightarrow> snd (snd (l A content lg w)) = emit_world lg w (entry_of A content lg w)"
    by simp
  have "entry_of A content lg w \<noteq> []"
    by (simp add: entry_of_def compose_entry_nonempty)
  then have "io_ok lg w \<Longrightarrow> files (snd (snd (l A content lg w))) \<noteq> files w"
    using e emit_world_files_changed by simp
  moreover have "io_ok lg w \<Longrightarrow> files (snd (snd (l A content lg w))) =
               (files w)(main_log lg w \<mapsto>
                  content_of w (main_log lg w) @ entry_of A content lg w)"
    using e by (simp add: emit_world_def)
  ultimately show ?thesis
    using False by auto
qed

theorem threshold_gate_witness:
  "LevelWeights LevelInfo = Some 1 \<and> LevelWeights LevelWarning = Some 3
   \<and> LevelWeights LevelError = Some 4
   \<and> minimumLogLevel (logger0\<lparr>minimumLogLevel := LevelWarning, levelWeight := 3\<rparr>) = LevelWarning
   \<and> io_ok (logger0\<lparr>minimumLogLevel := LevelWarning, levelWeight := 3\<rparr>) world0
   \<and> files (snd (snd (l LevelInfo ''x''
         (logger0\<lparr>minimumLogLevel := LevelWarning, levelWeight := 3\<rparr>) world0))) = files world0
   \<and> files (snd (snd (l LevelError ''x''
         (logger0\<lparr>minimumLogLevel := LevelWarning, levelWeight := 3\<rparr>) world0)))
         ''./logs/2024-01-02.log''
       = Some (''[2024-01-02 03:04:05.000000] ERROR x'' @ [CHR 0x0A])"
proof -
  let ?lg = "logger0\<lparr>minimumLogLevel := LevelWarning, levelWeight := 3\<rparr>"
  have lv: "LevelWeights LevelInfo = Some 1" "LevelWeights LevelWarning = Some 3"
    "LevelWeights LevelError = Some 4"
    by (simp_all add: level_defs)
  have th: "minimumLogLevel ?lg = LevelWarning" "levelWeight ?lg = 3"
    by simp_all
  have ok: "io_ok ?lg world0"
    by (simp add: io_ok_def fixture_defs)
  from threshold_gate [OF lv(1) lv(2) th, of "''x''" world0]
  have a: "files (snd (snd (l LevelInfo ''x'' ?lg world0))) = files world0"
    by simp
  from threshold_gate [OF lv(3) lv(2) th, of "''x''" world0] ok
  have "files (snd (snd (l LevelError ''x'' ?lg world0))) =
      (files world0)(main_log ?lg world0 \<mapsto>
         content_of world0 (main_log ?lg world0) @ entry_of LevelError ''x'' ?lg world0)"
    by simp
  moreover have "main_log ?lg world0 = ''./logs/2024-01-02.log''"
    by (simp add: main_log_def log_path_def fixture_defs)
  moreover have "entry_of LevelError ''x'' ?lg world0 =
      ''[2024-01-02 03:04:05.000000] ERROR x'' @ [CHR 0x0A]"
    by (simp add: entry_of_def compose_entry_def level_defs fixture_defs)
  moreover have "content_of world0 ''./logs/2024-01-02.log'' = []"
    by (simp add: content_of_def world0_def)
  ultimately have b: "files (snd (snd (l LevelError ''x'' ?lg world0))) ''./logs/2024-01-02.log''
       = Some (''[2024-01-02 03:04:05.000000] ERROR x'' @ [CHR 0x0A])"
    by simp
  from lv th(1) ok a b show ?thesis
    by blast
qed


section \<open>Unknown levels\<close>

text \<open>
  Claim C2, as amended. In the engine with level weights, \<open>l\<close> with a level that is not a
  key of \<open>LevelWeights\<close> returns at once: the variables, the files, the directories and the
  clock are untouched and the only effect is the one diagnostic
  \<^verbatim>\<open>LOGGER: Invalid log level: <level>\<close>. The legacy engine does not reject: a level that
  is none of its five names is replaced by INFO and the entry is written.
\<close>

theorem invalid_level:
  "(LevelWeights level = None \<longrightarrow>
      l level content lg w =
        (Returned, lg, w\<lparr>stderr := stderr w @ [''LOGGER: Invalid log level: '' @ level]\<rparr>))
   \<and> (level \<notin> {LevelDebug, LevelInfo, LevelWarning, LevelError, LevelFatal} \<and> io_ok lg w \<longrightarrow>
      l_legacy level content lg w =
        (Returned, emit_logger lg w, emit_world lg w (entry_of_legacy LevelInfo content lg w)))"
  by (simp add: l_invalid l_legacy_emits coerce_level_def)

theorem invalid_level_witness:
  "LevelWeights ''TRACE'' = None
   \<and> ''TRACE'' \<notin> {LevelDebug, LevelInfo, LevelWarning, LevelError, LevelFatal}
   \<and> io_ok logger0 world0
   \<and> l ''TRACE'' ''x'' logger0 world0 =
        (Returned, logger0, world0\<lparr>stderr := [''LOGGER: Invalid log level: TRACE'']\<rparr>)
   \<and> fst (l_legacy ''TRACE'' ''x'' logger0 world0) = Returned"
proof -
  have n: "LevelWeights ''TRACE'' = None"
    by (simp add: level_defs)
  have m: "''TRACE'' \<notin> {LevelDebug, LevelInfo, LevelWarning, LevelError, LevelFatal}"
    by (simp add: level_defs)
  note t = invalid_level [of "''TRACE''" "''x''" logger0 world0]
  from t n have a: "l ''TRACE'' ''x'' logger0 world0 =
      (Returned, logger0,
       world0\<lparr>stderr := stderr world0 @ [''LOGGER: Invalid log level: '' @ ''TRACE'']\<rparr>)"
    by blast
  from t m io_ok_0 have b: "fst (l_legacy ''TRACE'' ''x'' logger0 world0) = Returned"
    by simp
  from n m io_ok_0 a b show ?thesis
    by (simp add: world0_def)
qed

text \<open>
  The claim as stated (an unknown level writes nothing) fails on the legacy \<open>l\<close>: the level
  \<^verbatim>\<open>TRACE\<close> is not a severity name, and the call creates the log file of the day with an
  INFO entry.
\<close>

theorem invalid_level_legacy_counterexample:
  "LevelWeights ''TRACE'' = None \<and>
   files world0 ''./logs/2024-01-02.log'' = None \<and>
   fst (l_legacy ''TRACE'' ''x'' logger0 world0) = Returned \<and>
   files (snd (snd (l_legacy ''TRACE'' ''x'' logger0 world0))) ''./logs/2024-01-02.log''
     = Some (''[2024-01-02 03:04:05.000000] INFO x'' @ [CHR 0x0A])"
  unfolding l_legacy_emits [OF io_ok_0]
  by (simp add: emit_world_def entry_of_legacy_def compose_entry_legacy_def
       coerce_level_def main_log_def log_path_def content_of_def level_defs fixture_defs)


section \<open>Setting the threshold\<close>

text \<open>
  Claim C3, as amended. \<open>SetMinimumLogLevel\<close> upper-cases its argument first. For every
  input it returns, and afterwards the threshold is a recognized severity whose weight is
  \<open>levelWeight\<close>: the upper-cased input when that is a key of \<open>LevelWeights\<close>, and
  NOTICE otherwise. No other variable changes. (The hypothesis is the one property of
  \<^verbatim>\<open>strings.ToUpper\<close> the recursion needs.)
\<close>

theorem SetMinimumLogLevel_valid:
  assumes "ToUpper LevelNotice = LevelNotice"
  shows "\<exists>lg'. SetMinimumLogLevel ToUpper level lg = Some lg'
           \<and> threshold_ok lg'
           \<and> minimumLogLevel lg' =
               (if LevelWeights (ToUpper level) = None then LevelNotice else ToUpper level)
           \<and> lg' = lg\<lparr>minimumLogLevel := minimumLogLevel lg', levelWeight := levelWeight lg'\<rparr>"
proof (cases "LevelWeights (ToUpper level)")
  case None
  with assms show ?thesis
    by (simp add: SetMinimumLogLevel_fallback threshold_ok_def level_defs)
next
  case (Some a)
  then show ?thesis
    by (simp add: SetMinimumLogLevel_found threshold_ok_def)
qed

theorem SetMinimumLogLevel_valid_witness:
  "ToUpperASCII LevelNotice = LevelNotice
   \<and> SetMinimumLogLevel ToUpperASCII ''verbose'' logger0 =
        Some (logger0\<lparr>minimumLogLevel := LevelNotice, levelWeight := 2\<rparr>)
   \<and> SetMinimumLogLevel ToUpperASCII ''error'' logger0 =
        Some (logger0\<lparr>minimumLogLevel := LevelError, levelWeight := 4\<rparr>)"
proof -
  have v: "ToUpperASCII ''verbose'' = ''VERBOSE''" and e: "ToUpperASCII ''error'' = ''ERROR''"
    by (simp_all add: ToUpperASCII_def upper_char_def)
  obtain lg1 where 1: "SetMinimumLogLevel ToUpperASCII ''verbose'' logger0 = Some lg1"
     "minimumLogLevel lg1 = (if LevelWeights (ToUpperASCII ''verbose'') = None then LevelNotice else ToUpperASCII ''verbose'')"
     "threshold_ok lg1"
     "lg1 = logger0\<lparr>minimumLogLevel := minimumLogLevel lg1, levelWeight := levelWeight lg1\<rparr>"
    using SetMinimumLogLevel_valid [of ToUpperASCII "''verbose''" logger0] ToUpperASCII_Notice
    by blast
  obtain lg2 where 2: "SetMinimumLogLevel ToUpperASCII ''error'' logger0 = Some lg2"
     "minimumLogLevel lg2 = (if LevelWeights (ToUpperASCII ''error'') = None then LevelNotice else ToUpperASCII ''error'')"
     "threshold_ok lg2"
     "lg2 = logger0\<lparr>minimumLogLevel := minimumLogLevel lg2, levelWeight := levelWeight lg2\<rparr>"
    using SetMinimumLogLevel_valid [of ToUpperASCII "''error''" logger0] ToUpperASCII_Notice
    by blast
  have m1: "minimumLogLevel lg1 = LevelNotice" using 1(2) by (simp add: v level_defs)
  have w1: "levelWeight lg1 = 2" using 1(3) m1 by (simp add: threshold_ok_def level_defs)
  have m2: "minimumLogLevel lg2 = LevelError" using 2(2) by (simp add: e level_defs)
  have w2: "levelWeight lg2 = 4" using 2(3) m2 by (simp add: threshold_ok_def level_defs)
  from 1(1) 1(4) m1 w1 2(1) 2(4) m2 w2 show ?thesis
    by (simp add: ToUpperASCII_Notice)
qed

text \<open>
  The claim as stated sends every input that is not a severity name to the default. The
  input \<^verbatim>\<open>debug\<close> is not a key of \<open>LevelWeights\<close> (\<open>l\<close> rejects it as an invalid level),
  and yet the threshold becomes DEBUG, not NOTICE.
\<close>

theorem SetMinimumLogLevel_case_counterexample:
  "LevelWeights ''debug'' = None \<and>
   SetMinimumLogLevel ToUpperASCII ''debug'' logger0 =
     Some (logger0\<lparr>minimumLogLevel := ''DEBUG'', levelWeight := 0\<rparr>) \<and>
   ''DEBUG'' \<noteq> LevelNotice"
proof -
  have u: "ToUpperASCII ''debug'' = ''DEBUG''"
    by (simp add: ToUpperASCII_def upper_char_def)
  have "LevelWeights (ToUpperASCII ''debug'') = Some 0"
    by (simp add: u level_defs)
  with SetMinimumLogLevel_found [of ToUpperASCII "''debug''" 0 logger0] u show ?thesis
    by (simp add: level_defs)
qed


section \<open>The terminal severity\<close>

text \<open>
  Claim C4, as amended. In the engine with level weights, \<open>l\<close> with FATAL passes the gates
  whenever the threshold is a recognized severity; when no file operation fails it appends
  the composed entry to the log file of the day and then panics with the message. Whenever
  \<open>l\<close> panics, in any world, the level was FATAL and the entry has been appended: the panic
  never takes the place of the write. The legacy engine writes the FATAL entry in the same
  way and then returns: it raises no signal.
\<close>

theorem fatal_write_then_signal:
  "(threshold_ok lg \<and> io_ok lg w \<longrightarrow>
      l LevelFatal content lg w =
        (Panicked content, emit_logger lg w, emit_world lg w (entry_of LevelFatal content lg w)))
   \<and> (fst (l level content lg w) = Panicked c \<longrightarrow>
        level = LevelFatal \<and> c = content \<and>
        files (snd (snd (l level content lg w))) =
          (files w)(main_log lg w \<mapsto>
             content_of w (main_log lg w) @ entry_of level content lg w))
   \<and> (io_ok lg w \<longrightarrow>
        Fatal_legacy content lg w =
          (Returned, emit_logger lg w,
           emit_world lg w (entry_of_legacy LevelFatal content lg w)))"
proof (intro conjI impI)
  assume a: "threshold_ok lg \<and> io_ok lg w"
  then have "levelWeight lg \<le> 6"
    using LevelWeights_range [of "minimumLogLevel lg" "levelWeight lg"]
    by (simp add: threshold_ok_def)
  moreover have "LevelWeights LevelFatal = Some 6"
    by (simp add: level_defs)
  ultimately show "l LevelFatal content lg w =
        (Panicked content, emit_logger lg w, emit_world lg w (entry_of LevelFatal content lg w))"
    using a l_emits [of LevelFatal 6 lg w content] by simp
next
  assume "fst (l level content lg w) = Panicked c"
  then show "level = LevelFatal" and "c = content"
    and "files (snd (snd (l level content lg w))) =
          (files w)(main_log lg w \<mapsto>
             content_of w (main_log lg w) @ entry_of level content lg w)"
    using l_panic_written [of level content lg w c] by blast+
next
  assume "io_ok lg w"
  then show "Fatal_legacy content lg w =
          (Returned, emit_logger lg w,
           emit_world lg w (entry_of_legacy LevelFatal content lg w))"
    by (simp add: Fatal_legacy_def l_legacy_emits coerce_level_def level_defs)
qed

theorem fatal_write_then_signal_witness:
  "threshold_ok logger0 \<and> io_ok logger0 world0
   \<and> fst (l LevelFatal ''boom'' logger0 world0) = Panicked ''boom''
   \<and> files (snd (snd (l LevelFatal ''boom'' logger0 world0))) ''./logs/2024-01-02.log''
        = Some (''[2024-01-02 03:04:05.000000] FATAL boom'' @ [CHR 0x0A])
   \<and> fst (Fatal_legacy ''boom'' logger0 world0) = Returned"
proof -
  note t = fatal_write_then_signal [of logger0 world0 "''boom''" LevelFatal "''boom''"]
  from t threshold_ok_logger0 io_ok_0
  have a: "l LevelFatal ''boom'' logger0 world0 =
        (Panicked ''boom'', emit_logger logger0 world0,
         emit_world logger0 world0 (entry_of LevelFatal ''boom'' logger0 world0))"
    by blast
  then have p: "fst (l LevelFatal ''boom'' logger0 world0) = Panicked ''boom''"
    by simp
  with t have b: "files (snd (snd (l LevelFatal ''boom'' logger0 world0))) =
          (files world0)(main_log logger0 world0 \<mapsto>
             content_of world0 (main_log logger0 world0) @
             entry_of LevelFatal ''boom'' logger0 world0)"
    by blast
  have e: "entry_of LevelFatal ''boom'' logger0 world0 =
             ''[2024-01-02 03:04:05.000000] FATAL boom'' @ [CHR 0x0A]"
    by (simp add: entry_of_def compose_entry_def level_defs fixture_defs)
  from t io_ok_0 have d: "fst (Fatal_legacy ''boom'' logger0 world0) = Returned"
    by simp
  from threshold_ok_logger0 io_ok_0 p b d show ?thesis
    by (simp add: main_log_0 e) (simp add: content_of_def world0_def)
qed

text \<open>
  The claim as stated (the termination signal follows the write) fails on the legacy
  engine: its \<open>Fatal\<close> writes the entry and returns.
\<close>

theorem fatal_legacy_counterexample:
  "fst (Fatal_legacy ''boom'' logger0 world0) = Returned \<and>
   files (snd (snd (Fatal_legacy ''boom'' logger0 world0))) ''./logs/2024-01-02.log''
     = Some (''[2024-01-02 03:04:05.000000] FATAL boom'' @ [CHR 0x0A])"
  unfolding Fatal_legacy_def l_legacy_emits [OF io_ok_0]
  by (simp add: emit_world_def entry_of_legacy_def compose_entry_legacy_def
       coerce_level_def main_log_def log_path_def content_of_def level_defs fixture_defs)


section \<open>The timer\<close>

text \<open>
  Claim C5, as amended. On the first emission of a fresh engine (\<open>start = 0\<close>) the call reads
  the clock five times: the first reading is the time stamp, the second becomes \<open>start\<close>,
  the third and the fourth give the runtime and the step as their \<^verbatim>\<open>float64\<close> difference to
  \<open>start\<close>, and the fifth becomes \<open>lastStep\<close>. A field of the entry reports zero exactly
  when the \<^verbatim>\<open>float64\<close> product of the difference with \<open>1000000\<close> is less than one in
  magnitude; so the first entry reports a zero runtime (a zero step) when the third (the
  fourth) reading gives the same \<^verbatim>\<open>float64\<close> value as the second. A second emission
  reports as its step the \<^verbatim>\<open>float64\<close> difference of its third reading to \<open>lastStep\<close>; the
  difference is positive exactly when that reading is greater than \<open>lastStep\<close>, and the
  step field differs from zero when the difference is a microsecond or more.
\<close>

theorem first_emission_timing:
  assumes "LevelWeights level = Some a" and "levelWeight lg \<le> a"
    and "io_ok lg w" and "start lg = 0"
    and "LevelWeights level2 = Some a2" and "levelWeight lg \<le> a2"
    and "reading (clock w) (ticks w + 1) \<noteq> 0"
  shows "\<exists>lg1 w1 lg2 w2.
      l level content lg w = (if level = LevelFatal then Panicked content else Returned, lg1, w1)
    \<and> start lg1 = reading (clock w) (ticks w + 1)
    \<and> lastStep lg1 = reading (clock w) (ticks w + 4)
    \<and> files w1 (main_log lg w) =
        Some (content_of w (main_log lg w) @
              compose_entry lg (Format_stamp (clock w (ticks w)))
                (formatMicroTimeDuration
                   (fsub (reading (clock w) (ticks w + 2)) (reading (clock w) (ticks w + 1))))
                (formatMicroTimeDuration
                   (fsub (reading (clock w) (ticks w + 3)) (reading (clock w) (ticks w + 1))))
                level content)
    \<and> (reading (clock w) (ticks w + 2) = reading (clock w) (ticks w + 1) \<longrightarrow>
         formatMicroTimeDuration
           (fsub (reading (clock w) (ticks w + 2)) (reading (clock w) (ticks w + 1)))
         = zero_duration)
    \<and> (reading (clock w) (ticks w + 3) = reading (clock w) (ticks w + 1) \<longrightarrow>
         formatMicroTimeDuration
           (fsub (reading (clock w) (ticks w + 3)) (reading (clock w) (ticks w + 1)))
         = zero_duration)
    \<and> (formatMicroTimeDuration
           (fsub (reading (clock w) (ticks w + 2)) (reading (clock w) (ticks w + 1)))
         = zero_duration \<longleftrightarrow>
         \<bar>fmul (fsub (reading (clock w) (ticks w + 2)) (reading (clock w) (ticks w + 1)))
            1000000\<bar> < 1)
    \<and> (formatMicroTimeDuration
           (fsub (reading (clock w) (ticks w + 3)) (reading (clock w) (ticks w + 1)))
         = zero_duration \<longleftrightarrow>
         \<bar>fmul (fsub (reading (clock w) (ticks w + 3)) (reading (clock w) (ticks w + 1)))
            1000000\<bar> < 1)
    \<and> l level2 content2 lg1 w1 =
        (if level2 = LevelFatal then Panicked content2 else Returned, lg2, w2)
    \<and> files w2 (main_log lg1 w1) =
        Some (content_of w1 (main_log lg1 w1) @
              compose_entry lg (Format_stamp (clock w (ticks w + 5)))
                (formatMicroTimeDuration
                   (fsub (reading (clock w) (ticks w + 6)) (reading (clock w) (ticks w + 1))))
                (formatMicroTimeDuration
                   (fsub (reading (clock w) (ticks w + 7)) (reading (clock w) (ticks w + 4))))
                level2 content2)
    \<and> (0 < fsub (reading (clock w) (ticks w + 7)) (reading (clock w) (ticks w + 4))
         \<longleftrightarrow> reading (clock w) (ticks w + 4) < reading (clock w) (ticks w + 7))
    \<and> (formatMicroTimeDuration
           (fsub (reading (clock w) (ticks w + 7)) (reading (clock w) (ticks w + 4)))
         = zero_duration \<longleftrightarrow>
         \<bar>fmul (fsub (reading (clock w) (ticks w + 7)) (reading (clock w) (ticks w + 4)))
            1000000\<bar> < 1)
    \<and> (1 / 1000000 \<le> fsub (reading (clock w) (ticks w + 7)) (reading (clock w) (ticks w + 4)) \<longrightarrow>
         formatMicroTimeDuration
           (fsub (reading (clock w) (ticks w + 7)) (reading (clock w) (ticks w + 4)))
         \<noteq> zero_duration)"
proof -
  define e1 where "e1 = entry_of level content lg w"
  define lg1 where "lg1 = emit_logger lg w"
  define w1 where "w1 = emit_world lg w e1"
  have first: "l level content lg w =
      (if level = LevelFatal then Panicked content else Returned, lg1, w1)"
    using assms(1-3) by (simp add: l_emits lg1_def w1_def e1_def)
  have e1: "e1 = compose_entry lg (Format_stamp (clock w (ticks w)))
                (formatMicroTimeDuration
                   (fsub (reading (clock w) (ticks w + 2)) (reading (clock w) (ticks w + 1))))
                (formatMicroTimeDuration
                   (fsub (reading (clock w) (ticks w + 3)) (reading (clock w) (ticks w + 1))))
                level content"
    using assms(4) by (simp add: e1_def entry_of_def runtime_of_def step_of_def)
  have z: "reading (clock w) (ticks w + 2) = reading (clock w) (ticks w + 1) \<longrightarrow>
         formatMicroTimeDuration
           (fsub (reading (clock w) (ticks w + 2)) (reading (clock w) (ticks w + 1)))
         = zero_duration"
     "reading (clock w) (ticks w + 3) = reading (clock w) (ticks w + 1) \<longrightarrow>
         formatMicroTimeDuration
           (fsub (reading (clock w) (ticks w + 3)) (reading (clock w) (ticks w + 1)))
         = zero_duration"
    by (simp_all add: fsub_self format_zero)
  note iff = format_zero_iff [OF fsub_representable]
  have i1: "formatMicroTimeDuration
           (fsub (reading (clock w) (ticks w + 2)) (reading (clock w) (ticks w + 1)))
         = zero_duration \<longleftrightarrow>
         \<bar>fmul (fsub (reading (clock w) (ticks w + 2)) (reading (clock w) (ticks w + 1)))
            1000000\<bar> < 1"
    and i2: "formatMicroTimeDuration
           (fsub (reading (clock w) (ticks w + 3)) (reading (clock w) (ticks w + 1)))
         = zero_duration \<longleftrightarrow>
         \<bar>fmul (fsub (reading (clock w) (ticks w + 3)) (reading (clock w) (ticks w + 1)))
            1000000\<bar> < 1"
    and i3: "formatMicroTimeDuration
           (fsub (reading (clock w) (ticks w + 7)) (reading (clock w) (ticks w + 4)))
         = zero_duration \<longleftrightarrow>
         \<bar>fmul (fsub (reading (clock w) (ticks w + 7)) (reading (clock w) (ticks w + 4)))
            1000000\<bar> < 1"
    by (rule iff)+
  have s1: "start lg1 = reading (clock w) (ticks w + 1)"
    and ls1: "lastStep lg1 = reading (clock w) (ticks w + 4)"
    using assms(4) by (simp_all add: lg1_def emit_logger_def)
  have f1: "files w1 (main_log lg w) = Some (content_of w (main_log lg w) @ e1)"
    by (simp add: w1_def emit_world_def)
  have ok1: "io_ok lg1 w1"
    using assms(3) by (simp add: lg1_def w1_def io_ok_emit)
  have lw1: "levelWeight lg1 \<le> a2"
    using assms(6) by (simp add: lg1_def emit_logger_def)
  define e2 where "e2 = entry_of level2 content2 lg1 w1"
  have second: "l level2 content2 lg1 w1 =
      (if level2 = LevelFatal then Panicked content2 else Returned,
       emit_logger lg1 w1, emit_world lg1 w1 e2)"
    using assms(5) lw1 ok1 by (simp add: l_emits e2_def)
  have t1: "ticks w1 = ticks w + 5" and c1: "clock w1 = clock w"
    using assms(4) by (simp_all add: w1_def emit_world_def)
  have e2: "e2 = compose_entry lg (Format_stamp (clock w (ticks w + 5)))
                (formatMicroTimeDuration
                   (fsub (reading (clock w) (ticks w + 6)) (reading (clock w) (ticks w + 1))))
                (formatMicroTimeDuration
                   (fsub (reading (clock w) (ticks w + 7)) (reading (clock w) (ticks w + 4))))
                level2 content2"
    using assms(7) s1 ls1
    by (simp add: e2_def entry_of_def runtime_of_def step_of_def t1 c1 add.commute
          lg1_def emit_logger_def compose_entry_frame)
  have f2: "files (emit_world lg1 w1 e2) (main_log lg1 w1) =
      Some (content_of w1 (main_log lg1 w1) @ e2)"
    by (simp add: emit_world_def)
  have pos: "0 < fsub (reading (clock w) (ticks w + 7)) (reading (clock w) (ticks w + 4))
         \<longleftrightarrow> reading (clock w) (ticks w + 4) < reading (clock w) (ticks w + 7)"
    by (rule reading_pos_iff)
  have nz: "1 / 1000000 \<le> fsub (reading (clock w) (ticks w + 7)) (reading (clock w) (ticks w + 4)) \<longrightarrow>
         formatMicroTimeDuration
           (fsub (reading (clock w) (ticks w + 7)) (reading (clock w) (ticks w + 4)))
         \<noteq> zero_duration"
    using format_nonzero [OF fsub_representable] by blast
  from first s1 ls1 f1 z i1 i2 second f2 pos i3 nz show ?thesis
    unfolding e1 e2 by blast
qed

theorem first_emission_timing_witness:
  "LevelWeights LevelError = Some 4
   \<and> levelWeight (logger0\<lparr>IncludeRuntime := True, IncludeStep := True\<rparr>) \<le> 4
   \<and> io_ok (logger0\<lparr>IncludeRuntime := True, IncludeStep := True\<rparr>)
        (world0\<lparr>clock := clock_calm\<rparr>)
   \<and> start (logger0\<lparr>IncludeRuntime := True, IncludeStep := True\<rparr>) = 0
   \<and> reading clock_calm 1 \<noteq> 0
   \<and> reading clock_calm 2 = reading clock_calm 1
   \<and> reading clock_calm 3 = reading clock_calm 1
   \<and> 1 / 1000000 \<le> fsub (reading clock_calm 7) (reading clock_calm 4)
   \<and> files (snd (snd (l LevelError ''x'' (logger0\<lparr>IncludeRuntime := True, IncludeStep := True\<rparr>)
                      (world0\<lparr>clock := clock_calm\<rparr>))))
      ''./logs/2024-01-02.log''
     = Some (''[2024-01-02 03:04:05.000000][00:00:00:00.000000][00:00:00:00.000000] ERROR x''
             @ [CHR 0x0A])
   \<and> formatMicroTimeDuration (fsub (reading clock_calm 7) (reading clock_calm 4))
     = ''00:00:00:02.000000''
   \<and> formatMicroTimeDuration (fsub (reading clock_calm 7) (reading clock_calm 4))
     \<noteq> zero_duration"
proof -
  let ?lg = "logger0\<lparr>IncludeRuntime := True, IncludeStep := True\<rparr>"
  let ?w = "world0\<lparr>clock := clock_calm\<rparr>"
  have ok: "io_ok ?lg ?w"
    by (simp add: io_ok_def fixture_defs)
  have lv: "LevelWeights LevelError = Some 4" "levelWeight ?lg \<le> 4"
    by (simp_all add: level_defs fixture_defs)
  have st: "start ?lg = 0"
    by (simp add: fixture_defs)
  have rd: "reading clock_calm 1 \<noteq> 0" "reading clock_calm 2 = reading clock_calm 1"
    "reading clock_calm 3 = reading clock_calm 1"
    "1 / 1000000 \<le> fsub (reading clock_calm 7) (reading clock_calm 4)"
    by (simp_all add: reading_clock_calm fsub_seconds)
  have cw: "clock ?w = clock_calm" "ticks ?w = 0"
    by (simp_all add: world0_def)
  have h7: "reading (clock ?w) (ticks ?w + 1) \<noteq> 0"
    unfolding cw using rd(1) by simp
  from first_emission_timing [OF lv ok st lv h7, of "''x''" "''y''"]
  obtain lg1 w1 where
    1: "l LevelError ''x'' ?lg ?w =
          (if LevelError = LevelFatal then Panicked ''x'' else Returned, lg1, w1)"
    and 2: "files w1 (main_log ?lg ?w) =
        Some (content_of ?w (main_log ?lg ?w) @
              compose_entry ?lg (Format_stamp (clock ?w (ticks ?w)))
                (formatMicroTimeDuration
                   (fsub (reading (clock ?w) (ticks ?w + 2)) (reading (clock ?w) (ticks ?w + 1))))
                (formatMicroTimeDuration
                   (fsub (reading (clock ?w) (ticks ?w + 3)) (reading (clock ?w) (ticks ?w + 1))))
                LevelError ''x'')"
    and 3: "reading (clock ?w) (ticks ?w + 2) = reading (clock ?w) (ticks ?w + 1) \<longrightarrow>
         formatMicroTimeDuration
           (fsub (reading (clock ?w) (ticks ?w + 2)) (reading (clock ?w) (ticks ?w + 1)))
         = zero_duration"
    and 4: "reading (clock ?w) (ticks ?w + 3) = reading (clock ?w) (ticks ?w + 1) \<longrightarrow>
         formatMicroTimeDuration
           (fsub (reading (clock ?w) (ticks ?w + 3)) (reading (clock ?w) (ticks ?w + 1)))
         = zero_duration"
    and 5: "1 / 1000000 \<le> fsub (reading (clock ?w) (ticks ?w + 7)) (reading (clock ?w) (ticks ?w + 4)) \<longrightarrow>
         formatMicroTimeDuration
           (fsub (reading (clock ?w) (ticks ?w + 7)) (reading (clock ?w) (ticks ?w + 4)))
         \<noteq> zero_duration"
    by blast
  from 3 rd(2) have z1: "formatMicroTimeDuration
           (fsub (reading (clock ?w) (ticks ?w + 2)) (reading (clock ?w) (ticks ?w + 1)))
         = zero_duration"
    unfolding cw add_0 by blast
  from 4 rd(3) have z2: "formatMicroTimeDuration
           (fsub (reading (clock ?w) (ticks ?w + 3)) (reading (clock ?w) (ticks ?w + 1)))
         = zero_duration"
    unfolding cw add_0 by blast
  from 5 rd(4) have nz: "formatMicroTimeDuration (fsub (reading clock_calm 7) (reading clock_calm 4))
     \<noteq> zero_duration"
    unfolding cw add_0 by blast
  have two: "formatMicroTimeDuration (fsub (reading clock_calm 7) (reading clock_calm 4))
     = ''00:00:00:02.000000''"
    by (simp add: reading_clock_calm fsub_seconds format_two)
  have m: "main_log ?lg ?w = ''./logs/2024-01-02.log''"
    by (simp add: main_log_def log_path_def fixture_defs)
  have e: "compose_entry ?lg (Format_stamp (clock ?w (ticks ?w))) zero_duration zero_duration
                LevelError ''x'' =
      ''[2024-01-02 03:04:05.000000][00:00:00:00.000000][00:00:00:00.000000] ERROR x''
             @ [CHR 0x0A]"
    by (simp add: compose_entry_def zero_duration_def level_defs fixture_defs)
  have c: "content_of ?w ''./logs/2024-01-02.log'' = []"
    by (simp add: content_of_def fixture_defs)
  from 1 have "snd (snd (l LevelError ''x'' ?lg ?w)) = w1"
    by simp
  with 2 have "files (snd (snd (l LevelError ''x'' ?lg ?w))) ''./logs/2024-01-02.log'' =
      Some (''[2024-01-02 03:04:05.000000][00:00:00:00.000000][00:00:00:00.000000] ERROR x''
             @ [CHR 0x0A])"
    unfolding z1 z2 m e c by simp
  with lv ok st rd two nz show ?thesis
    by blast
qed

text \<open>
  The claim as stated (the first entry reports zero runtime and zero step) fails when the
  clock moves between the readings of the first emission: with a clock that jumps by one
  second after the reading that becomes \<open>start\<close>, the first entry of a fresh engine reports
  a runtime and a step of one second. The readings are whole seconds, which \<^verbatim>\<open>float64\<close>
  represents exactly.
\<close>

theorem first_emission_counterexample:
  "start (logger0\<lparr>IncludeRuntime := True, IncludeStep := True\<rparr>) = 0 \<and>
   lastStep (logger0\<lparr>IncludeRuntime := True, IncludeStep := True\<rparr>) = 0 \<and>
   files (snd (snd (l LevelError ''x'' (logger0\<lparr>IncludeRuntime := True, IncludeStep := True\<rparr>)
                      (world0\<lparr>clock := clock_jump\<rparr>))))
      ''./logs/2024-01-02.log''
     = Some (''[2024-01-02 03:04:05.000000][00:00:00:01.000000][00:00:00:01.000000] ERROR x''
             @ [CHR 0x0A])"
proof -
  let ?lg = "logger0\<lparr>IncludeRuntime := True, IncludeStep := True\<rparr>"
  let ?w = "world0\<lparr>clock := clock_jump\<rparr>"
  have ok: "io_ok ?lg ?w"
    by (simp add: io_ok_def fixture_defs)
  have lv: "LevelWeights LevelError = Some 4" "levelWeight ?lg \<le> 4"
    by (simp_all add: level_defs fixture_defs)
  have st: "start ?lg = 0" "clock ?w = clock_jump" "ticks ?w = 0"
    by (simp_all add: fixture_defs)
  have r: "runtime_of ?lg ?w = 1" "step_of ?lg ?w = 1"
    unfolding runtime_of_def step_of_def st
    by (simp_all add: reading_clock_jump fsub_seconds)
  have e: "entry_of LevelError ''x'' ?lg ?w =
      ''[2024-01-02 03:04:05.000000][00:00:00:01.000000][00:00:00:01.000000] ERROR x''
             @ [CHR 0x0A]"
    unfolding entry_of_def r format_one
    by (simp add: compose_entry_def level_defs fixture_defs)
  have m: "main_log ?lg ?w = ''./logs/2024-01-02.log''"
    by (simp add: main_log_def log_path_def fixture_defs)
  have "files (snd (snd (l LevelError ''x'' ?lg ?w))) ''./logs/2024-01-02.log'' =
      Some (content_of ?w ''./logs/2024-01-02.log'' @ entry_of LevelError ''x'' ?lg ?w)"
    unfolding l_emits [OF lv ok] by (simp add: emit_world_def m)
  then show ?thesis
    unfolding e by (simp add: content_of_def fixture_defs)
qed


section \<open>Requests in the main log\<close>

text \<open>
  Claim C6, as amended. \<open>LogRequest\<close> and \<open>LogSimpleRequest\<close> hand the one-line summary to
  \<open>Log\<close> at level INFO unless both \<open>LogRequestsSeparately\<close> and \<open>HideRequestsFromMainLog\<close>
  are set, and \<open>Log\<close> applies the threshold: when no file operation fails, the main log of
  the day changes exactly when not both flags are set and the threshold admits INFO
  (\<open>levelWeight \<le> 1\<close>), and then the INFO entry with the summary is what is appended.
\<close>

theorem request_main_log_visibility:
  assumes "io_ok lg w"
  shows "(files (snd (snd (snd (LogRequest req lg w)))) (main_log lg w) \<noteq> files w (main_log lg w)
            \<longleftrightarrow> \<not> (LogRequestsSeparately lg \<and> HideRequestsFromMainLog lg) \<and> levelWeight lg \<le> 1)
       \<and> (files (snd (snd (LogSimpleRequest method path userAgent ip lg w))) (main_log lg w)
              \<noteq> files w (main_log lg w)
            \<longleftrightarrow> \<not> (LogRequestsSeparately lg \<and> HideRequestsFromMainLog lg) \<and> levelWeight lg \<le> 1)
       \<and> (\<not> (LogRequestsSeparately lg \<and> HideRequestsFromMainLog lg) \<and> levelWeight lg \<le> 1 \<longrightarrow>
            files (snd (snd (snd (LogRequest req lg w)))) (main_log lg w) =
              Some (content_of w (main_log lg w) @
                    entry_of LevelInfo
                      (request_line (Method req) (Path req) (UserAgent req) (IP req)) lg w))"
proof -
  have ne: "entry_of LevelInfo line lg w \<noteq> []" for line
    by (simp add: entry_of_def compose_entry_nonempty)
  have a: "files (snd (snd (snd (LogRequest req lg w)))) (main_log lg w) =
     (if \<not> (LogRequestsSeparately lg \<and> HideRequestsFromMainLog lg) \<and> levelWeight lg \<le> 1
      then Some (content_of w (main_log lg w) @
                 entry_of LevelInfo (request_line (Method req) (Path req) (UserAgent req) (IP req)) lg w)
      else files w (main_log lg w))"
    using LogRequest_main_file [of req lg w lg "Format_date (clock w (ticks w))"]
      log_to_main_file [OF assms]
    by (simp add: main_log_def)
  have b: "files (snd (snd (LogSimpleRequest method path userAgent ip lg w))) (main_log lg w) =
     (if \<not> (LogRequestsSeparately lg \<and> HideRequestsFromMainLog lg) \<and> levelWeight lg \<le> 1
      then Some (content_of w (main_log lg w) @
                 entry_of LevelInfo (request_line method path userAgent ip) lg w)
      else files w (main_log lg w))"
    using LogSimpleRequest_main_file [of "method" "path" userAgent ip lg w lg "Format_date (clock w (ticks w))"]
      log_to_main_file [OF assms]
    by (simp add: main_log_def)
  show ?thesis
    unfolding a b using appended_differs [OF ne] by auto
qed

theorem request_main_log_visibility_witness:
  "io_ok (logger0\<lparr>HideRequestsFromMainLog := True, levelWeight := 1,
                   minimumLogLevel := LevelInfo\<rparr>) world0
   \<and> \<not> LogRequestsSeparately (logger0\<lparr>HideRequestsFromMainLog := True, levelWeight := 1,
                   minimumLogLevel := LevelInfo\<rparr>)
   \<and> files (snd (snd (snd (LogRequest request0
        (logger0\<lparr>HideRequestsFromMainLog := True, levelWeight := 1,
                   minimumLogLevel := LevelInfo\<rparr>) world0))))
       ''./logs/2024-01-02.log''
     = Some (''[2024-01-02 03:04:05.000000] INFO (GET) /index <- Mozilla/5.0 (X11, Linux) @ 127.0.0.1''
             @ [CHR 0x0A])"
proof -
  let ?lg = "logger0\<lparr>HideRequestsFromMainLog := True, levelWeight := 1,
                   minimumLogLevel := LevelInfo\<rparr>"
  have ok: "io_ok ?lg world0"
    by (simp add: io_ok_def fixture_defs)
  have fl: "\<not> LogRequestsSeparately ?lg" "levelWeight ?lg \<le> 1"
    by (simp_all add: fixture_defs)
  have m: "main_log ?lg world0 = ''./logs/2024-01-02.log''"
    by (simp add: main_log_def log_path_def fixture_defs)
  have e: "entry_of LevelInfo
             (request_line (Method request0) (Path request0) (UserAgent request0) (IP request0))
             ?lg world0 =
           ''[2024-01-02 03:04:05.000000] INFO (GET) /index <- Mozilla/5.0 (X11, Linux) @ 127.0.0.1''
             @ [CHR 0x0A]"
    by (simp add: entry_of_def compose_entry_def request_line_def level_defs fixture_defs)
  have c: "content_of world0 ''./logs/2024-01-02.log'' = []"
    by (simp add: content_of_def fixture_defs)
  from request_main_log_visibility [OF ok, of request0] fl
  have "files (snd (snd (snd (LogRequest request0 ?lg world0)))) (main_log ?lg world0) =
      Some (content_of world0 (main_log ?lg world0) @
            entry_of LevelInfo
              (request_line (Method request0) (Path request0) (UserAgent request0) (IP request0))
              ?lg world0)"
    by blast
  then have "files (snd (snd (snd (LogRequest request0 ?lg world0)))) ''./logs/2024-01-02.log''
     = Some (''[2024-01-02 03:04:05.000000] INFO (GET) /index <- Mozilla/5.0 (X11, Linux) @ 127.0.0.1''
             @ [CHR 0x0A])"
    unfolding m e c by simp
  with ok fl(1) show ?thesis
    by blast
qed

text \<open>
  The claim as stated (the summary reaches the main log whenever not both flags are set)
  fails under the default threshold: after \<^verbatim>\<open>init\<close> in an empty environment the threshold is
  NOTICE, and with \<open>HideRequestsFromMainLog\<close> set and \<open>LogRequestsSeparately\<close> unset
  \<open>LogRequest\<close> returns without having written any file; \<open>l\<close> rejects the INFO line.
\<close>

theorem request_hidden_by_threshold_counterexample:
  "\<not> LogRequestsSeparately (logger0\<lparr>HideRequestsFromMainLog := True\<rparr>)
   \<and> HideRequestsFromMainLog (logger0\<lparr>HideRequestsFromMainLog := True\<rparr>)
   \<and> minimumLogLevel (logger0\<lparr>HideRequestsFromMainLog := True\<rparr>) = LevelNotice
   \<and> fst (LogRequest request0 (logger0\<lparr>HideRequestsFromMainLog := True\<rparr>) world0) = Returned
   \<and> files (snd (snd (snd (LogRequest request0 (logger0\<lparr>HideRequestsFromMainLog := True\<rparr>) world0))))
       = Map.empty"
proof -
  let ?lg = "logger0\<lparr>HideRequestsFromMainLog := True\<rparr>"
  have w: "1 < levelWeight ?lg"
    by (simp add: level_defs fixture_defs)
  have fl: "\<not> LogRequestsSeparately ?lg" "HideRequestsFromMainLog ?lg"
    "minimumLogLevel ?lg = LevelNotice"
    by (simp_all add: fixture_defs)
  have "LogRequest request0 ?lg world0 =
      (Returned, request0, ?lg,
       world0\<lparr>stderr := stderr world0 @
          [''LOGGER: Log level not allowed: '' @ LevelInfo,
           ''LOGGER: Level weight of minimum log level: '' @ fmt_d (levelWeight ?lg) @
           '', level weight of selected level: '' @ fmt_d 1]\<rparr>)"
    using fl(1) by (simp add: LogRequest_def log_to_main_def Log_def l_rejects [OF LevelWeights_Info w])
  then show ?thesis
    using fl by (simp add: world0_def)
qed


section \<open>The request file and its header\<close>

text \<open>
  Claim C7. The claim asks for the header row before the first data row of the day. The
  \<open>LogRequest\<close> of \<^verbatim>\<open>request.go\<close> never writes it: on a day whose request file does not exist
  yet, with separate logging on, the file it leaves holds the data row alone. (The variant
  with geo data writes the header when the file is absent, see \<open>LogRequest_geo_hidden\<close>.)
\<close>

theorem request_csv_without_header:
  "LogRequestsSeparately (logger0\<lparr>LogRequestsSeparately := True, HideRequestsFromMainLog := True\<rparr>)
   \<and> files (world0\<lparr>dirs := {''./logs''}\<rparr>) ''./logs/requests-2024-01-02.csv'' = None
   \<and> fst (LogRequest request0
             (logger0\<lparr>LogRequestsSeparately := True, HideRequestsFromMainLog := True\<rparr>)
             (world0\<lparr>dirs := {''./logs''}\<rparr>)) = Returned
   \<and> files (snd (snd (snd (LogRequest request0
             (logger0\<lparr>LogRequestsSeparately := True, HideRequestsFromMainLog := True\<rparr>)
             (world0\<lparr>dirs := {''./logs''}\<rparr>)))))
         ''./logs/requests-2024-01-02.csv''
       = Some ('',GET,/index,127.0.0.1,,Mozilla/5.0 (X11; Linux),,example.org,7,3'' @ [CHR 0x0A])
   \<and> Join GetCSVHeader '','' =
       ''connection_time,method,path,ip,address,user_agent,referer,connection_id,connection_seq,requested_host''"
proof -
  let ?lg = "logger0\<lparr>LogRequestsSeparately := True, HideRequestsFromMainLog := True\<rparr>"
  let ?w = "world0\<lparr>dirs := {''./logs''}\<rparr>"
  have a: "LogRequestsSeparately ?lg" "HideRequestsFromMainLog ?lg"
    "\<forall>op p. \<not> io_fails ?w op p" "LogDir ?lg \<in> dirs ?w"
    by (simp_all add: fixture_defs)
  have p: "requests_path ?lg (Format_date (clock ?w (ticks ?w))) = ''./logs/requests-2024-01-02.csv''"
    by (simp add: requests_path_def fixture_defs)
  have row: "ToCSV (request0\<lparr>UserAgent := ReplaceAll_comma (UserAgent request0)\<rparr>) =
      '',GET,/index,127.0.0.1,,Mozilla/5.0 (X11; Linux),,example.org,7,3'' @ [CHR 0x0A]"
    by (simp add: ToCSV_def ReplaceAll_comma_def FormatUint_small request0_def New_def)
  have h: "Join GetCSVHeader '','' =
       ''connection_time,method,path,ip,address,user_agent,referer,connection_id,connection_seq,requested_host''"
    by (simp add: GetCSVHeader_def)
  have n: "files ?w ''./logs/requests-2024-01-02.csv'' = None"
    by (simp add: world0_def)
  show ?thesis
    unfolding LogRequest_hidden [OF a] p row
    using a(1) n h by (simp add: content_of_def)
qed

text \<open>
  Claim C8. In \<^verbatim>\<open>request.go\<close> the header lists \<^verbatim>\<open>requested_host\<close> last, after the two
  connection fields, while \<open>ToCSV\<close> prints the requested host before them: the header is
  not the order the claim gives, and a row does not follow the header. (In the variant with
  geo data they agree for every request, see \<open>ToCSV_geo_follows_header\<close>.)
\<close>

theorem csv_header_order_mismatch:
  "GetCSVHeader \<noteq>
     [''connection_time'', ''method'', ''path'', ''ip'', ''address'', ''user_agent'', ''referer'',
      ''requested_host'', ''connection_id'', ''connection_seq'']
   \<and> ToCSV request0 =
       '',GET,/index,127.0.0.1,,Mozilla/5.0 (X11, Linux),,example.org,7,3'' @ [CHR 0x0A]
   \<and> row_of (csv_field request0) GetCSVHeader =
       '',GET,/index,127.0.0.1,,Mozilla/5.0 (X11, Linux),,7,3,example.org'' @ [CHR 0x0A]
   \<and> GetCSVHeader ! 7 = ''connection_id''
   \<and> csv_field request0 ''connection_id'' = ''7''"
  by (simp add: GetCSVHeader_def ToCSV_def row_of_def csv_field_def FormatUint_small
        request0_def New_def)


section \<open>The user agent in the request file\<close>

text \<open>
  Claim C10, as amended. With \<open>LogRequestsSeparately\<close> set, a call of \<open>LogRequest\<close> that
  returns leaves the caller's request with the user agent in which every comma is replaced
  by a semicolon (same length, no comma left, every other byte as it was) and every other
  field as it was; this holds for the \<open>LogRequest\<close> of \<^verbatim>\<open>request.go\<close> and for the one of the
  variant with geo data. When no operation of the file system fails and the log directory
  exists, both calls do return: after the line for the main log (\<open>log_to_main\<close>) they take
  one reading of the clock and append the row of the rewritten request to the request file
  of the day; the variant with geo data puts the header before the row when the file did
  not exist. The row has nine commas (nineteen with the geo fields) more than its text
  fields other than the user agent contain: it has the header's number of columns exactly
  when no other field holds a comma.
\<close>

theorem LogRequest_sanitizes_user_agent:
  assumes "LogRequestsSeparately lg"
  shows "(LogRequest req lg w = (Returned, req', lg', w') \<longrightarrow>
            req' = req\<lparr>UserAgent := ReplaceAll_comma (UserAgent req)\<rparr>)
       \<and> (LogRequest_geo f greq lg w = (Returned, greq', lg'', w'') \<longrightarrow>
            greq' = greq\<lparr>UserAgent := ReplaceAll_comma (UserAgent greq)\<rparr>)
       \<and> (io_ok lg w \<and> LogDir lg \<in> dirs w \<and>
          snd (log_to_main (request_line (Method req) (Path req) (UserAgent req) (IP req)) lg w)
            = (lga, wa) \<longrightarrow>
            LogRequest req lg w =
              (Returned, req\<lparr>UserAgent := ReplaceAll_comma (UserAgent req)\<rparr>, lga,
               wa\<lparr>ticks := Suc (ticks wa),
                  files := (files wa)(requests_path lg (Format_date (clock w (ticks wa))) \<mapsto>
                    content_of w (requests_path lg (Format_date (clock w (ticks wa)))) @
                    ToCSV (req\<lparr>UserAgent := ReplaceAll_comma (UserAgent req)\<rparr>))\<rparr>))
       \<and> (io_ok lg w \<and> LogDir lg \<in> dirs w \<and>
          snd (log_to_main (request_line (Method greq) (Path greq) (UserAgent greq) (IP greq)) lg w)
            = (lgb, wb) \<longrightarrow>
            LogRequest_geo f greq lg w =
              (Returned, greq\<lparr>UserAgent := ReplaceAll_comma (UserAgent greq)\<rparr>, lgb,
               wb\<lparr>ticks := Suc (ticks wb),
                  files := (files wb)(requests_path lg (Format_date (clock w (ticks wb))) \<mapsto>
                    (case files w (requests_path lg (Format_date (clock w (ticks wb)))) of
                       None \<Rightarrow> Join GetCSVHeader_geo '','' @ [CHR 0x0A]
                     | Some c \<Rightarrow> c) @
                    ToCSV_geo f (greq\<lparr>UserAgent := ReplaceAll_comma (UserAgent greq)\<rparr>))\<rparr>))
       \<and> CHR '','' \<notin> set (ReplaceAll_comma ua)
       \<and> length (ReplaceAll_comma ua) = length ua
       \<and> (\<forall>i < length ua.
             ReplaceAll_comma ua ! i = (if ua ! i = CHR '','' then CHR '';'' else ua ! i))
       \<and> commas (ToCSV (req\<lparr>UserAgent := ReplaceAll_comma (UserAgent req)\<rparr>)) =
           commas (Join GetCSVHeader '','') + commas_outside_user_agent req
       \<and> commas (ToCSV_geo f (greq\<lparr>UserAgent := ReplaceAll_comma (UserAgent greq)\<rparr>)) =
           commas (Join GetCSVHeader_geo '','') + commas_outside_user_agent greq
             + commas_geo_fields f greq"
proof -
  have a: "LogRequest req lg w = (Returned, req', lg', w') \<longrightarrow>
            req' = req\<lparr>UserAgent := ReplaceAll_comma (UserAgent req)\<rparr>"
    using assms LogRequest_Returned [of lg req w req' lg' w'] by blast
  have b: "LogRequest_geo f greq lg w = (Returned, greq', lg'', w'') \<longrightarrow>
            greq' = greq\<lparr>UserAgent := ReplaceAll_comma (UserAgent greq)\<rparr>"
    using assms LogRequest_geo_Returned [of lg f greq w greq' lg'' w''] by blast
  note c = LogRequest_ok [OF assms, of w req lga wa]
  note d = LogRequest_geo_ok [OF assms, of w greq lgb wb f]
  have e: "CHR '','' \<notin> set (ReplaceAll_comma ua)"
    "length (ReplaceAll_comma ua) = length ua"
    "\<forall>i < length ua.
       ReplaceAll_comma ua ! i = (if ua ! i = CHR '','' then CHR '';'' else ua ! i)"
    by (simp_all add: ReplaceAll_comma_props)
  note g = commas_ToCSV [of req] commas_ToCSV_geo [of f greq] commas_headers
  from a b c d e g show ?thesis
    by (simp only:) blast
qed

theorem LogRequest_sanitizes_user_agent_witness:
  "LogRequestsSeparately (logger0\<lparr>LogRequestsSeparately := True, HideRequestsFromMainLog := True\<rparr>)
   \<and> io_ok (logger0\<lparr>LogRequestsSeparately := True, HideRequestsFromMainLog := True\<rparr>)
        (world0\<lparr>dirs := {''./logs''}\<rparr>)
   \<and> LogDir (logger0\<lparr>LogRequestsSeparately := True, HideRequestsFromMainLog := True\<rparr>)
        \<in> dirs (world0\<lparr>dirs := {''./logs''}\<rparr>)
   \<and> UserAgent request0 = ''Mozilla/5.0 (X11, Linux)''
   \<and> UserAgent geo_request0 = ''Mozilla/5.0 (X11, Linux)''
   \<and> LogRequest request0
        (logger0\<lparr>LogRequestsSeparately := True, HideRequestsFromMainLog := True\<rparr>)
        (world0\<lparr>dirs := {''./logs''}\<rparr>)
       = (Returned, request0\<lparr>UserAgent := ''Mozilla/5.0 (X11; Linux)''\<rparr>,
          logger0\<lparr>LogRequestsSeparately := True, HideRequestsFromMainLog := True\<rparr>,
          world0\<lparr>dirs := {''./logs''}, ticks := 1,
            files := [''./logs/requests-2024-01-02.csv'' \<mapsto>
              '',GET,/index,127.0.0.1,,Mozilla/5.0 (X11; Linux),,example.org,7,3'' @ [CHR 0x0A]]\<rparr>)
   \<and> LogRequest_geo Sprintf_zero geo_request0
        (logger0\<lparr>LogRequestsSeparately := True, HideRequestsFromMainLog := True\<rparr>)
        (world0\<lparr>dirs := {''./logs''}\<rparr>)
       = (Returned, geo_request0\<lparr>UserAgent := ''Mozilla/5.0 (X11; Linux)''\<rparr>,
          logger0\<lparr>LogRequestsSeparately := True, HideRequestsFromMainLog := True\<rparr>,
          world0\<lparr>dirs := {''./logs''}, ticks := 1,
            files := [''./logs/requests-2024-01-02.csv'' \<mapsto>
              Join GetCSVHeader_geo '','' @ [CHR 0x0A] @
              '',GET,/index,127.0.0.1,,Mozilla/5.0 (X11; Linux),,example.org,,,,,0.000000000000,0.000000000000,,,,,7,3''
              @ [CHR 0x0A]]\<rparr>)
   \<and> commas (ToCSV (request0\<lparr>UserAgent := ''Mozilla/5.0 (X11; Linux)''\<rparr>)) = 9
   \<and> commas (ToCSV_geo Sprintf_zero (geo_request0\<lparr>UserAgent := ''Mozilla/5.0 (X11; Linux)''\<rparr>))
       = 19"
proof -
  let ?lg = "logger0\<lparr>LogRequestsSeparately := True, HideRequestsFromMainLog := True\<rparr>"
  let ?w = "world0\<lparr>dirs := {''./logs''}\<rparr>"
  have a: "LogRequestsSeparately ?lg" "io_ok ?lg ?w" "LogDir ?lg \<in> dirs ?w"
    by (simp_all add: io_ok_def fixture_defs)
  have m: "snd (log_to_main (request_line (Method request0) (Path request0) (UserAgent request0)
                  (IP request0)) ?lg ?w) = (?lg, ?w)"
     "snd (log_to_main (request_line (Method geo_request0) (Path geo_request0)
                  (UserAgent geo_request0) (IP geo_request0)) ?lg ?w) = (?lg, ?w)"
    by (simp_all add: log_to_main_def fixture_defs)
  have ua: "UserAgent request0 = ''Mozilla/5.0 (X11, Linux)''"
    "UserAgent geo_request0 = ''Mozilla/5.0 (X11, Linux)''"
    "ReplaceAll_comma (UserAgent request0) = ''Mozilla/5.0 (X11; Linux)''"
    "ReplaceAll_comma (UserAgent geo_request0) = ''Mozilla/5.0 (X11; Linux)''"
    by (simp_all add: ReplaceAll_comma_def fixture_defs)
  have p: "requests_path ?lg (Format_date (clock ?w (ticks ?w))) = ''./logs/requests-2024-01-02.csv''"
    by (simp add: requests_path_def fixture_defs)
  have n: "files ?w ''./logs/requests-2024-01-02.csv'' = None" "files ?w = Map.empty"
    "content_of ?w ''./logs/requests-2024-01-02.csv'' = []"
    by (simp_all add: content_of_def world0_def)
  have row: "ToCSV (request0\<lparr>UserAgent := ''Mozilla/5.0 (X11; Linux)''\<rparr>) =
      '',GET,/index,127.0.0.1,,Mozilla/5.0 (X11; Linux),,example.org,7,3'' @ [CHR 0x0A]"
    by (simp add: ToCSV_def FormatUint_small request0_def New_def)
  have grow: "ToCSV_geo Sprintf_zero (geo_request0\<lparr>UserAgent := ''Mozilla/5.0 (X11; Linux)''\<rparr>) =
      '',GET,/index,127.0.0.1,,Mozilla/5.0 (X11; Linux),,example.org,,,,,0.000000000000,0.000000000000,,,,,7,3''
      @ [CHR 0x0A]"
    by (simp add: ToCSV_geo_def FormatUint_small geo_request0_def New_geo_def Sprintf_zero_def)
  have z: "commas_outside_user_agent request0 = 0" "commas_outside_user_agent geo_request0 = 0"
    "commas_geo_fields Sprintf_zero geo_request0 = 0"
    by (simp_all add: commas_outside_user_agent_def commas_geo_fields_def commas_simps
          fixture_defs)
  have h: "commas (Join GetCSVHeader '','') = 9" "commas (Join GetCSVHeader_geo '','') = 19"
    by (simp_all add: GetCSVHeader_def GetCSVHeader_geo_def commas_simps)
  note t = LogRequest_sanitizes_user_agent [OF a(1), where req = request0 and w = ?w
      and f = Sprintf_zero and greq = geo_request0 and lga = ?lg and wa = ?w and lgb = ?lg
      and wb = ?w]
  from t [THEN conjunct2, THEN conjunct2, THEN conjunct1] a(2,3) m(1)
  have c1: "LogRequest request0 ?lg ?w =
              (Returned, request0\<lparr>UserAgent := ReplaceAll_comma (UserAgent request0)\<rparr>, ?lg,
               ?w\<lparr>ticks := Suc (ticks ?w),
                  files := (files ?w)(requests_path ?lg (Format_date (clock ?w (ticks ?w))) \<mapsto>
                    content_of ?w (requests_path ?lg (Format_date (clock ?w (ticks ?w)))) @
                    ToCSV (request0\<lparr>UserAgent := ReplaceAll_comma (UserAgent request0)\<rparr>))\<rparr>)"
    by blast
  from t [THEN conjunct2, THEN conjunct2, THEN conjunct2, THEN conjunct1] a(2,3) m(2)
  have c2: "LogRequest_geo Sprintf_zero geo_request0 ?lg ?w =
              (Returned, geo_request0\<lparr>UserAgent := ReplaceAll_comma (UserAgent geo_request0)\<rparr>, ?lg,
               ?w\<lparr>ticks := Suc (ticks ?w),
                  files := (files ?w)(requests_path ?lg (Format_date (clock ?w (ticks ?w))) \<mapsto>
                    (case files ?w (requests_path ?lg (Format_date (clock ?w (ticks ?w)))) of
                       None \<Rightarrow> Join GetCSVHeader_geo '','' @ [CHR 0x0A]
                     | Some c \<Rightarrow> c) @
                    ToCSV_geo Sprintf_zero
                      (geo_request0\<lparr>UserAgent := ReplaceAll_comma (UserAgent geo_request0)\<rparr>))\<rparr>)"
    by blast
  note c3 = t [THEN conjunct2, THEN conjunct2, THEN conjunct2, THEN conjunct2, THEN conjunct2,
      THEN conjunct2, THEN conjunct2, THEN conjunct1]
    t [THEN conjunct2, THEN conjunct2, THEN conjunct2, THEN conjunct2, THEN conjunct2,
      THEN conjunct2, THEN conjunct2, THEN conjunct2]
  have 1: "LogRequest request0 ?lg ?w
       = (Returned, request0\<lparr>UserAgent := ''Mozilla/5.0 (X11; Linux)''\<rparr>, ?lg,
          ?w\<lparr>ticks := 1,
            files := [''./logs/requests-2024-01-02.csv'' \<mapsto>
              '',GET,/index,127.0.0.1,,Mozilla/5.0 (X11; Linux),,example.org,7,3'' @ [CHR 0x0A]]\<rparr>)"
    unfolding c1 ua(3) p n(1,3) row by (simp add: world0_def)
  have 2: "LogRequest_geo Sprintf_zero geo_request0 ?lg ?w
       = (Returned, geo_request0\<lparr>UserAgent := ''Mozilla/5.0 (X11; Linux)''\<rparr>, ?lg,
          ?w\<lparr>ticks := 1,
            files := [''./logs/requests-2024-01-02.csv'' \<mapsto>
              Join GetCSVHeader_geo '','' @ [CHR 0x0A] @
              '',GET,/index,127.0.0.1,,Mozilla/5.0 (X11; Linux),,example.org,,,,,0.000000000000,0.000000000000,,,,,7,3''
              @ [CHR 0x0A]]\<rparr>)"
    unfolding c2 ua(4) p n(1,3) grow by (simp add: world0_def)
  from c3 have 3: "commas (ToCSV (request0\<lparr>UserAgent := ''Mozilla/5.0 (X11; Linux)''\<rparr>)) = 9"
    "commas (ToCSV_geo Sprintf_zero (geo_request0\<lparr>UserAgent := ''Mozilla/5.0 (X11; Linux)''\<rparr>))
       = 19"
    unfolding ua(3,4) z h by simp_all
  from a ua(1,2) 1 2 3 show ?thesis
    by blast
qed

text \<open>
  The claim as stated (rewriting the user agent keeps the expected number of columns) fails
  when another field holds a comma: only the user agent is rewritten. A request whose path
  is \<^verbatim>\<open>/a,b\<close> leaves a row of eleven columns under a header of ten in the request file of
  \<^verbatim>\<open>request.go\<close>, and a row of twenty-one columns under the header of twenty that the
  variant with geo data writes.
\<close>

theorem LogRequest_comma_counterexample:
  "Path request1 = ''/a,b''
   \<and> files (snd (snd (snd (LogRequest request1
             (logger0\<lparr>LogRequestsSeparately := True, HideRequestsFromMainLog := True\<rparr>)
             (world0\<lparr>dirs := {''./logs''}\<rparr>)))))
         ''./logs/requests-2024-01-02.csv''
       = Some ('',GET,/a,b,127.0.0.1,,Mozilla/5.0 (X11; Linux),,example.org,7,3'' @ [CHR 0x0A])
   \<and> commas ('',GET,/a,b,127.0.0.1,,Mozilla/5.0 (X11; Linux),,example.org,7,3'' @ [CHR 0x0A]) = 10
   \<and> commas (Join GetCSVHeader '','') = 9
   \<and> files (snd (snd (snd (LogRequest_geo Sprintf_zero geo_request1
             (logger0\<lparr>LogRequestsSeparately := True, HideRequestsFromMainLog := True\<rparr>)
             (world0\<lparr>dirs := {''./logs''}\<rparr>)))))
         ''./logs/requests-2024-01-02.csv''
       = Some (Join GetCSVHeader_geo '','' @ [CHR 0x0A] @
               '',GET,/a,b,127.0.0.1,,Mozilla/5.0 (X11; Linux),,example.org,,,,,0.000000000000,0.000000000000,,,,,7,3''
               @ [CHR 0x0A])
   \<and> commas ('',GET,/a,b,127.0.0.1,,Mozilla/5.0 (X11; Linux),,example.org,,,,,0.000000000000,0.000000000000,,,,,7,3''
               @ [CHR 0x0A]) = 20
   \<and> commas (Join GetCSVHeader_geo '','') = 19"
proof -
  let ?lg = "logger0\<lparr>LogRequestsSeparately := True, HideRequestsFromMainLog := True\<rparr>"
  let ?w = "world0\<lparr>dirs := {''./logs''}\<rparr>"
  have a: "LogRequestsSeparately ?lg" "HideRequestsFromMainLog ?lg"
    "\<forall>op p. \<not> io_fails ?w op p" "LogDir ?lg \<in> dirs ?w"
    by (simp_all add: fixture_defs)
  have p: "requests_path ?lg (Format_date (clock ?w (ticks ?w))) = ''./logs/requests-2024-01-02.csv''"
    by (simp add: requests_path_def fixture_defs)
  have n: "files ?w ''./logs/requests-2024-01-02.csv'' = None"
    "content_of ?w ''./logs/requests-2024-01-02.csv'' = []"
    by (simp_all add: content_of_def world0_def)
  have row: "ToCSV (request1\<lparr>UserAgent := ReplaceAll_comma (UserAgent request1)\<rparr>) =
      '',GET,/a,b,127.0.0.1,,Mozilla/5.0 (X11; Linux),,example.org,7,3'' @ [CHR 0x0A]"
    by (simp add: ToCSV_def ReplaceAll_comma_def FormatUint_small request1_def request0_def
          New_def)
  have grow: "ToCSV_geo Sprintf_zero
        (geo_request1\<lparr>UserAgent := ReplaceAll_comma (UserAgent geo_request1)\<rparr>) =
      '',GET,/a,b,127.0.0.1,,Mozilla/5.0 (X11; Linux),,example.org,,,,,0.000000000000,0.000000000000,,,,,7,3''
      @ [CHR 0x0A]"
    by (simp add: ToCSV_geo_def ReplaceAll_comma_def FormatUint_small geo_request1_def
          geo_request0_def New_geo_def Sprintf_zero_def)
  have 1: "files (snd (snd (snd (LogRequest request1 ?lg ?w)))) ''./logs/requests-2024-01-02.csv''
       = Some ('',GET,/a,b,127.0.0.1,,Mozilla/5.0 (X11; Linux),,example.org,7,3'' @ [CHR 0x0A])"
    unfolding LogRequest_hidden [OF a] p row n by simp
  have 2: "files (snd (snd (snd (LogRequest_geo Sprintf_zero geo_request1 ?lg ?w))))
         ''./logs/requests-2024-01-02.csv''
       = Some (Join GetCSVHeader_geo '','' @ [CHR 0x0A] @
               '',GET,/a,b,127.0.0.1,,Mozilla/5.0 (X11; Linux),,example.org,,,,,0.000000000000,0.000000000000,,,,,7,3''
               @ [CHR 0x0A])"
    unfolding LogRequest_geo_hidden [OF a] p grow n by simp
  have 3: "Path request1 = ''/a,b''"
    by (simp add: request1_def)
  have 4: "commas ('',GET,/a,b,127.0.0.1,,Mozilla/5.0 (X11; Linux),,example.org,7,3'' @ [CHR 0x0A]) = 10"
    "commas ('',GET,/a,b,127.0.0.1,,Mozilla/5.0 (X11; Linux),,example.org,,,,,0.000000000000,0.000000000000,,,,,7,3''
               @ [CHR 0x0A]) = 20"
    by (simp_all add: commas_simps)
  from 1 2 3 4 commas_headers show ?thesis
    by blast
qed


section \<open>The geo lookup\<close>

text \<open>
  Claim C9, as amended. Without a geo database, and with a context whose \<^verbatim>\<open>c.Context()\<close>
  is not nil (with a nil one the call panics when it reads the connection id), every geo
  field of the request keeps its zero value and the request is handed to \<open>LogRequest\<close>,
  whose outcome is the outcome of the call. With a database, the parsed client address (nil when it does not parse) is handed
  to the lookup, and an error of the lookup ends the process through \<^verbatim>\<open>log.Fatal\<close>: the
  call exits before the request is built and nothing is logged.
\<close>

theorem geo_lookup_outcomes:
  "(ctx_Context c = Some rc \<longrightarrow>
      (\<exists>req. fst (snd (LogRequestFromFiber f P None c lg w)) = Some req
         \<and> Continent req = [] \<and> Country req = [] \<and> CountryCode req = [] \<and> City req = []
         \<and> Latitude req = 0 \<and> Longitude req = 0 \<and> Timezone req = [] \<and> PostalCode req = []
         \<and> Subdivision req = [] \<and> SubdivisionCode req = [] \<and> IP req = client_ip c
         \<and> fst (LogRequestFromFiber f P None c lg w) =
             fst (LogRequest_geo f req lg (w\<lparr>ticks := Suc (ticks w)\<rparr>))
         \<and> snd (snd (LogRequestFromFiber f P None c lg w)) =
             snd (snd (LogRequest_geo f req lg (w\<lparr>ticks := Suc (ticks w)\<rparr>)))))
   \<and> (city (P (client_ip c)) = Inl err \<longrightarrow>
        LogRequestFromFiber f P (Some city) c lg w =
          (Exited, None, lg, w\<lparr>ticks := Suc (ticks w)\<rparr>))"
  using LogRequestFromFiber_no_db [of c rc f P lg w]
    LogRequestFromFiber_lookup_error [of city P c err f lg w]
  by blast

theorem geo_lookup_outcomes_witness:
  "ctx_Context ctx0 = Some request_ctx0
   \<and> fst (LogRequestFromFiber (\<lambda>x::rat. ''0'') (\<lambda>s. None :: string option) None ctx0
             (logger0\<lparr>LogRequestsSeparately := True, HideRequestsFromMainLog := True\<rparr>)
             (world0\<lparr>dirs := {''./logs''}\<rparr>)) = Returned
   \<and> map_option Continent (fst (snd (LogRequestFromFiber (\<lambda>x::rat. ''0'')
             (\<lambda>s. None :: string option) None ctx0
             (logger0\<lparr>LogRequestsSeparately := True, HideRequestsFromMainLog := True\<rparr>)
             (world0\<lparr>dirs := {''./logs''}\<rparr>)))) = Some []
   \<and> map_option Latitude (fst (snd (LogRequestFromFiber (\<lambda>x::rat. ''0'')
             (\<lambda>s. None :: string option) None ctx0
             (logger0\<lparr>LogRequestsSeparately := True, HideRequestsFromMainLog := True\<rparr>)
             (world0\<lparr>dirs := {''./logs''}\<rparr>)))) = Some 0
   \<and> LogRequestFromFiber (\<lambda>x::rat. ''0'') (\<lambda>s. None :: string option)
        (Some (\<lambda>ip. Inl ''lookup failed'')) ctx0 logger0 world0
       = (Exited, None, logger0, world0\<lparr>ticks := 1\<rparr>)"
proof -
  let ?f = "\<lambda>x::rat. ''0''"
  let ?P = "\<lambda>s::string. None :: string option"
  let ?city = "\<lambda>ip :: string option. Inl ''lookup failed'' :: string + rat geoip2_City"
  let ?lg = "logger0\<lparr>LogRequestsSeparately := True, HideRequestsFromMainLog := True\<rparr>"
  let ?w = "world0\<lparr>dirs := {''./logs''}\<rparr>"
  have cx: "ctx_Context ctx0 = Some request_ctx0"
    by (simp add: ctx0_def)
  have a: "LogRequestsSeparately ?lg" "HideRequestsFromMainLog ?lg"
    "\<forall>op p. \<not> io_fails (?w\<lparr>ticks := Suc (ticks ?w)\<rparr>) op p"
    "LogDir ?lg \<in> dirs (?w\<lparr>ticks := Suc (ticks ?w)\<rparr>)"
    by (simp_all add: fixture_defs)
  from geo_lookup_outcomes [of ctx0 request_ctx0 ?f ?P ?lg ?w ?city "''lookup failed''"] cx
  obtain req where r: "fst (snd (LogRequestFromFiber ?f ?P None ctx0 ?lg ?w)) = Some req"
    "Continent req = []" "Latitude req = 0"
    "fst (LogRequestFromFiber ?f ?P None ctx0 ?lg ?w) =
       fst (LogRequest_geo ?f req ?lg (?w\<lparr>ticks := Suc (ticks ?w)\<rparr>))"
    by blast
  have ret: "fst (LogRequestFromFiber ?f ?P None ctx0 ?lg ?w) = Returned"
    unfolding r(4) LogRequest_geo_hidden [OF a] by simp
  from geo_lookup_outcomes [of ctx0 request_ctx0 ?f ?P logger0 world0 ?city "''lookup failed''"]
  have ex: "LogRequestFromFiber ?f ?P (Some ?city) ctx0 logger0 world0
       = (Exited, None, logger0, world0\<lparr>ticks := Suc (ticks world0)\<rparr>)"
    by simp
  have t: "ticks world0 = 0"
    by (simp add: world0_def)
  from cx ret r(1-3) ex show ?thesis
    by (simp add: t)
qed

text \<open>
  The claim as stated (a failed lookup is treated as no data and never prevents the request
  from being logged) fails: with a database whose lookup returns an error for an address
  that does not parse, the call exits, no request reaches \<open>LogRequest\<close> and no file is
  written.
\<close>

theorem geo_lookup_fatal_counterexample:
  "client_ip ctx0 = ''not-an-address''
   \<and> fst (LogRequestFromFiber (\<lambda>x::rat. ''0'') (\<lambda>s. None :: string option)
             (Some (\<lambda>ip. Inl ''lookup failed'')) ctx0
             (logger0\<lparr>LogRequestsSeparately := True\<rparr>) (world0\<lparr>dirs := {''./logs''}\<rparr>)) = Exited
   \<and> fst (snd (LogRequestFromFiber (\<lambda>x::rat. ''0'') (\<lambda>s. None :: string option)
             (Some (\<lambda>ip. Inl ''lookup failed'')) ctx0
             (logger0\<lparr>LogRequestsSeparately := True\<rparr>) (world0\<lparr>dirs := {''./logs''}\<rparr>))) = None
   \<and> files (snd (snd (snd (LogRequestFromFiber (\<lambda>x::rat. ''0'') (\<lambda>s. None :: string option)
             (Some (\<lambda>ip. Inl ''lookup failed'')) ctx0
             (logger0\<lparr>LogRequestsSeparately := True\<rparr>) (world0\<lparr>dirs := {''./logs''}\<rparr>)))))
       = Map.empty"
  by (simp add: LogRequestFromFiber_lookup_error client_ip_def ctx0_def world0_def)

end
